theory Spec2Isabelle
  imports Complex_Main "HOL-Library.AList" "HOL-Library.Log_Nat"
begin

section \<open>Decoded JSON values and the Python operations the program applies to them\<close>

text \<open>
  A Python float is an IEEE binary64 value: a finite value, carried as the rational it
  denotes, an infinity or NaN. The sign of a zero is not kept. \<open>round64\<close> rounds a rational
  to the nearest binary64 value: \<open>e\<close> is the exponent of the magnitude, not below that
  of the subnormals, \<open>u\<close> the spacing of the floats there and \<open>m\<close> the significand, ties
  going to the even one; a magnitude that rounds to \<open>2^1024\<close> or more becomes an infinity.
  It is the rounding of every float operation.
\<close>

datatype pyfloat = Finite rat | PosInf | NegInf | NaN

definition pow2 :: "int \<Rightarrow> rat" where
  "pow2 e = (if 0 \<le> e then 2 ^ nat e else 1 / 2 ^ nat (- e))"

definition round_half_even :: "rat \<Rightarrow> int" where
  "round_half_even y =
     (let f = \<lfloor>y\<rfloor>; r = y - of_int f
      in if r < 1 / 2 then f else if 1 / 2 < r then f + 1 else if even f then f else f + 1)"

definition floor_log2 :: "rat \<Rightarrow> int" where
  "floor_log2 x =
     (let b = bitlen (fst (quotient_of x)) - bitlen (snd (quotient_of x))
      in if pow2 b \<le> x then b else b - 1)"

definition round64 :: "rat \<Rightarrow> pyfloat" where
  "round64 x =
     (if x = 0 then Finite 0
      else let a = \<bar>x\<bar>;
               e = max (floor_log2 a) (- 1022);
               u = pow2 (e - 52);
               m = round_half_even (a / u)
           in if 1023 < e \<or> (e = 1023 \<and> 2 ^ 53 \<le> m) then (if 0 < x then PosInf else NegInf)
              else Finite (if 0 < x then of_int m * u else - (of_int m * u)))"

text \<open>\<^verbatim>\<open>a + b\<close>, \<^verbatim>\<open>a - b\<close> and \<^verbatim>\<open>a < b\<close> on floats.\<close>

fun float_add :: "pyfloat \<Rightarrow> pyfloat \<Rightarrow> pyfloat" where
  "float_add (Finite a) (Finite b) = round64 (a + b)"
| "float_add NaN _ = NaN"
| "float_add _ NaN = NaN"
| "float_add PosInf NegInf = NaN"
| "float_add NegInf PosInf = NaN"
| "float_add PosInf _ = PosInf"
| "float_add NegInf _ = NegInf"
| "float_add _ PosInf = PosInf"
| "float_add _ NegInf = NegInf"

fun float_neg :: "pyfloat \<Rightarrow> pyfloat" where
  "float_neg (Finite a) = Finite (- a)"
| "float_neg PosInf = NegInf"
| "float_neg NegInf = PosInf"
| "float_neg NaN = NaN"

definition float_sub :: "pyfloat \<Rightarrow> pyfloat \<Rightarrow> pyfloat" where
  "float_sub a b = float_add a (float_neg b)"

fun float_less :: "pyfloat \<Rightarrow> pyfloat \<Rightarrow> bool" where
  "float_less (Finite a) (Finite b) = (a < b)"
| "float_less NaN _ = False"
| "float_less _ NaN = False"
| "float_less PosInf _ = False"
| "float_less _ NegInf = False"
| "float_less _ PosInf = True"
| "float_less NegInf _ = True"

text \<open>
  The program reads every provider response through \<^verbatim>\<open>response.json()\<close>, so the values it
  inspects are decoded JSON documents. \<open>JNull\<close> is Python's \<^verbatim>\<open>None\<close>, \<open>JFloat\<close> is a number
  written with a fraction or an exponent, or one of the literals \<^verbatim>\<open>NaN\<close> and \<^verbatim>\<open>Infinity\<close>
  that the decoder accepts, and \<open>JObj\<close> lists the items of a dict in insertion order; a
  decoded dict has no repeated key. Strings are UTF-8 byte lists.
\<close>

datatype json =
    JNull
  | JBool bool
  | JInt int
  | JFloat pyfloat
  | JStr string
  | JList "json list"
  | JObj "(string \<times> json) list"

datatype value_error =
    RegionLookup    \<comment> \<open>the message of line 62\<close>
  | WeatherLookup   \<comment> \<open>the message of line 71\<close>
  | WeChatAuth      \<comment> \<open>the message of line 117\<close>
  | TimeData        \<comment> \<open>\<^verbatim>\<open>strptime\<close>: the text does not match the format, or data remains\<close>
  | DateRange       \<comment> \<open>the \<^verbatim>\<open>date\<close> constructor or \<^verbatim>\<open>replace\<close>: no such calendar day\<close>
  | IntLiteral      \<comment> \<open>\<^verbatim>\<open>int()\<close>: invalid literal\<close>

datatype error =
    ValueError value_error
  | KeyError json
  | IndexError
  | TypeError
  | OverflowError
  | AttributeError
  | RequestException    \<comment> \<open>raised by \<^verbatim>\<open>get\<close> or \<^verbatim>\<open>post\<close>: connection failure, timeout\<close>
  | JSONDecodeError     \<comment> \<open>raised by \<^verbatim>\<open>response.json()\<close>\<close>

text \<open>Truth value of a decoded value, as \<^verbatim>\<open>not x\<close> tests it.\<close>

fun truthy :: "json \<Rightarrow> bool" where
  "truthy JNull = False"
| "truthy (JBool b) = b"
| "truthy (JInt i) = (i \<noteq> 0)"
| "truthy (JFloat r) = (r \<noteq> Finite 0)"
| "truthy (JStr s) = (s \<noteq> [])"
| "truthy (JList l) = (l \<noteq> [])"
| "truthy (JObj kv) = (kv \<noteq> [])"

text \<open>\<^verbatim>\<open>x['k']\<close> for a string key.\<close>

fun subscript_key :: "json \<Rightarrow> string \<Rightarrow> error + json" where
  "subscript_key (JObj kv) k = (case map_of kv k of Some v \<Rightarrow> Inr v | None \<Rightarrow> Inl (KeyError (JStr k)))"
| "subscript_key _ k = Inl TypeError"

text \<open>
  \<^verbatim>\<open>x[0]\<close>. A dict decoded from JSON has string keys only, so the integer key is missing;
  a non-empty string yields its first character (the leading UTF-8 sequence).
\<close>

definition utf8_width :: "char \<Rightarrow> nat" where
  "utf8_width c = (let b = (of_char c :: nat) in
     if b < 0x80 then 1 else if b < 0xE0 then 2 else if b < 0xF0 then 3 else 4)"

fun subscript_zero :: "json \<Rightarrow> error + json" where
  "subscript_zero (JList l) = (case l of [] \<Rightarrow> Inl IndexError | x # _ \<Rightarrow> Inr x)"
| "subscript_zero (JStr s) = (case s of [] \<Rightarrow> Inl IndexError | c # _ \<Rightarrow> Inr (JStr (take (utf8_width c) s)))"
| "subscript_zero (JObj kv) = Inl (KeyError (JInt 0))"
| "subscript_zero _ = Inl TypeError"

text \<open>\<^verbatim>\<open>'k' in x\<close>: key of a dict, element of a list, substring of a string.\<close>

fun substring :: "string \<Rightarrow> string \<Rightarrow> bool" where
  "substring k [] = (k = [])"
| "substring k (c # cs) = (take (length k) (c # cs) = k \<or> substring k cs)"

fun py_in :: "string \<Rightarrow> json \<Rightarrow> error + bool" where
  "py_in k (JObj kv) = Inr (map_of kv k \<noteq> None)"
| "py_in k (JList l) = Inr (JStr k \<in> set l)"
| "py_in k (JStr s) = Inr (substring k s)"
| "py_in k _ = Inl TypeError"

text \<open>\<^verbatim>\<open>x.get('k')\<close>: only a dict has the method.\<close>

fun py_get :: "json \<Rightarrow> string \<Rightarrow> error + json" where
  "py_get (JObj kv) k = Inr (case map_of kv k of Some v \<Rightarrow> v | None \<Rightarrow> JNull)"
| "py_get _ k = Inl AttributeError"

text \<open>\<^verbatim>\<open>x != 0\<close>: booleans and floats compare with integers by value.\<close>

fun ne_zero :: "json \<Rightarrow> bool" where
  "ne_zero (JInt i) = (i \<noteq> 0)"
| "ne_zero (JBool b) = b"
| "ne_zero (JFloat r) = (r \<noteq> Finite 0)"
| "ne_zero _ = True"

text \<open>
  \<^verbatim>\<open>x + v\<close> for a float \<open>x\<close> and a decoded value \<open>v\<close>: an integer or boolean operand is
  converted to a float first, rounded to nearest, and the conversion raises OverflowError
  when the integer is too large; a value that is not a number raises TypeError.
\<close>

definition float_of_int :: "int \<Rightarrow> error + pyfloat" where
  "float_of_int i = (case round64 (of_int i) of
       Finite r \<Rightarrow> Inr (Finite r)
     | _ \<Rightarrow> Inl OverflowError)"

fun float_plus :: "pyfloat \<Rightarrow> json \<Rightarrow> error + pyfloat" where
  "float_plus x (JInt i) = (case float_of_int i of Inl e \<Rightarrow> Inl e | Inr y \<Rightarrow> Inr (float_add x y))"
| "float_plus x (JBool b) = Inr (float_add x (Finite (if b then 1 else 0)))"
| "float_plus x (JFloat y) = Inr (float_add x y)"
| "float_plus x _ = Inl TypeError"

subsection \<open>Formatting and parsing numbers\<close>

fun str_nat :: "nat \<Rightarrow> string" where
  "str_nat n = (if n < 10 then [''0123456789'' ! n]
                else str_nat (n div 10) @ [''0123456789'' ! (n mod 10)])"

declare str_nat.simps [simp del]

definition str_int :: "int \<Rightarrow> string" where
  "str_int i = (if i < 0 then CHR ''-'' # str_nat (nat (- i)) else str_nat (nat i))"

fun hex_nat :: "nat \<Rightarrow> string" where
  "hex_nat n = (if n < 16 then [''0123456789abcdef'' ! n]
                else hex_nat (n div 16) @ [''0123456789abcdef'' ! (n mod 16)])"

declare hex_nat.simps [simp del]

definition zfill :: "nat \<Rightarrow> string \<Rightarrow> string" where
  "zfill w s = replicate (w - length s) CHR ''0'' @ s"

definition is_digit :: "char \<Rightarrow> bool" where
  "is_digit c = (c \<in> set ''0123456789'')"

definition digit_val :: "char \<Rightarrow> int" where
  "digit_val c = int (of_char c) - 48"

definition digits_val :: "string \<Rightarrow> int" where
  "digits_val s = foldl (\<lambda>a c. 10 * a + digit_val c) 0 s"

text \<open>
  \<^verbatim>\<open>int(s)\<close> on ASCII text: surrounding whitespace is stripped, one sign is allowed, and
  the digits may be grouped by single underscores.
\<close>

definition is_space :: "char \<Rightarrow> bool" where
  "is_space c = (let b = (of_char c :: nat) in (9 \<le> b \<and> b \<le> 13) \<or> (28 \<le> b \<and> b \<le> 32))"

definition strip :: "string \<Rightarrow> string" where
  "strip s = rev (dropWhile is_space (rev (dropWhile is_space s)))"

fun int_digits :: "string \<Rightarrow> bool" where
  "int_digits [] = False"
| "int_digits [c] = is_digit c"
| "int_digits (c # d # cs) =
     (is_digit c \<and> (if d = CHR ''_'' then int_digits cs else int_digits (d # cs)))"

definition py_int :: "string \<Rightarrow> error + int" where
  "py_int s =
     (let t = strip s;
          (neg, body) = (case t of
              c # r \<Rightarrow> if c = CHR ''-'' then (True, r) else if c = CHR ''+'' then (False, r) else (False, t)
            | [] \<Rightarrow> (False, t))
      in if int_digits body
         then Inr ((if neg then - 1 else 1) * digits_val (filter (\<lambda>c. c \<noteq> CHR ''_'') body))
         else Inl (ValueError IntLiteral))"

text \<open>\<^verbatim>\<open>s.split(sep)\<close> for a one-character separator.\<close>

fun split_on :: "char \<Rightarrow> string \<Rightarrow> string list" where
  "split_on sep [] = [[]]"
| "split_on sep (c # cs) =
     (if c = sep then [] # split_on sep cs
      else (case split_on sep cs of p # ps \<Rightarrow> (c # p) # ps | [] \<Rightarrow> [[c]]))"

definition part :: "string list \<Rightarrow> nat \<Rightarrow> error + string" where
  "part parts i = (if i < length parts then Inr (parts ! i) else Inl IndexError)"

section \<open>Calendar dates\<close>

text \<open>
  \<^verbatim>\<open>datetime.date\<close>: a proleptic Gregorian day with year 1 to 9999. The constructor and
  \<^verbatim>\<open>replace\<close> raise ValueError for anything else; dates compare by (year, month, day);
  the difference of two dates is the difference of their ordinals.
\<close>

record pydate =
  year :: int
  month :: int
  day :: int

definition is_leap :: "int \<Rightarrow> bool" where
  "is_leap y = (y mod 4 = 0 \<and> (y mod 100 \<noteq> 0 \<or> y mod 400 = 0))"

definition days_in_month :: "int \<Rightarrow> int \<Rightarrow> int" where
  "days_in_month y m =
     (if m = 2 then (if is_leap y then 29 else 28)
      else if m = 4 \<or> m = 6 \<or> m = 9 \<or> m = 11 then 30 else 31)"

definition valid_date :: "pydate \<Rightarrow> bool" where
  "valid_date d = (1 \<le> year d \<and> year d \<le> 9999 \<and> 1 \<le> month d \<and> month d \<le> 12 \<and>
                   1 \<le> day d \<and> day d \<le> days_in_month (year d) (month d))"

definition mk_date :: "int \<Rightarrow> int \<Rightarrow> int \<Rightarrow> error + pydate" where
  "mk_date y m d =
     (let r = \<lparr>year = y, month = m, day = d\<rparr>
      in if valid_date r then Inr r else Inl (ValueError DateRange))"

definition replace_year :: "pydate \<Rightarrow> int \<Rightarrow> error + pydate" where
  "replace_year d y = mk_date y (month d) (day d)"

definition date_less :: "pydate \<Rightarrow> pydate \<Rightarrow> bool" where
  "date_less a b = (year a < year b \<or> (year a = year b \<and>
                     (month a < month b \<or> (month a = month b \<and> day a < day b))))"

definition days_before_year :: "int \<Rightarrow> int" where
  "days_before_year y = (y - 1) * 365 + (y - 1) div 4 - (y - 1) div 100 + (y - 1) div 400"

definition days_before_month :: "int \<Rightarrow> int \<Rightarrow> int" where
  "days_before_month y m = (\<Sum>k \<leftarrow> [1 ..< nat m]. days_in_month y (int k))"

definition toordinal :: "pydate \<Rightarrow> int" where
  "toordinal d = days_before_year (year d) + days_before_month (year d) (month d) + day d"

definition weekday :: "pydate \<Rightarrow> nat" where
  "weekday d = nat ((toordinal d + 6) mod 7)"

definition isoformat :: "pydate \<Rightarrow> string" where
  "isoformat d = zfill 4 (str_int (year d)) @ ''-'' @ zfill 2 (str_int (month d)) @ ''-''
                 @ zfill 2 (str_int (day d))"

text \<open>
  \<^verbatim>\<open>datetime.strptime(s, "%Y-%m-%d")\<close>: four digits, a dash, a month written
  \<^verbatim>\<open>1[0-2]|0[1-9]|[1-9]\<close>, a dash, a day written \<^verbatim>\<open>3[01]|[12]\d|0[1-9]|[1-9]| [1-9]\<close>, and
  nothing after it; then the \<^verbatim>\<open>date\<close> constructor checks the day against the calendar.
\<close>

definition strptime_month :: "string \<Rightarrow> int option" where
  "strptime_month s = (case s of
       [a, b] \<Rightarrow> if (a = CHR ''1'' \<and> b \<in> set ''012'') \<or> (a = CHR ''0'' \<and> b \<in> set ''123456789'')
                 then Some (digits_val s) else None
     | [a] \<Rightarrow> if a \<in> set ''123456789'' then Some (digit_val a) else None
     | _ \<Rightarrow> None)"

definition strptime_day :: "string \<Rightarrow> int option" where
  "strptime_day s = (case s of
       [a, b] \<Rightarrow> if (a = CHR ''3'' \<and> b \<in> set ''01'') \<or> (a \<in> set ''12'' \<and> is_digit b)
                    \<or> (a = CHR ''0'' \<and> b \<in> set ''123456789'')
                 then Some (digits_val s)
                 else if a = CHR '' '' \<and> b \<in> set ''123456789'' then Some (digit_val b)
                 else None
     | [a] \<Rightarrow> if a \<in> set ''123456789'' then Some (digit_val a) else None
     | _ \<Rightarrow> None)"

definition strptime_ymd :: "string \<Rightarrow> error + pydate" where
  "strptime_ymd s =
     (if 5 \<le> length s \<and> list_all is_digit (take 4 s) \<and> s ! 4 = CHR ''-''
      then (let rest = drop 5 s;
                mt = takeWhile (\<lambda>c. c \<noteq> CHR ''-'') rest
            in case dropWhile (\<lambda>c. c \<noteq> CHR ''-'') rest of
                 [] \<Rightarrow> Inl (ValueError TimeData)
               | _ # dt \<Rightarrow>
                   (case (strptime_month mt, strptime_day dt) of
                      (Some m, Some d) \<Rightarrow> mk_date (digits_val (take 4 s)) m d
                    | _ \<Rightarrow> Inl (ValueError TimeData)))
      else Inl (ValueError TimeData))"

section \<open>The world outside the process, and the state of the process\<close>

text \<open>
  Everything the program obtains from outside is an oracle, indexed by how often it has
  been consulted: \<open>net\<close> answers the n-th HTTP request with the decoded body or with the
  exception that \<^verbatim>\<open>get\<close>, \<^verbatim>\<open>post\<close> or \<^verbatim>\<open>.json()\<close> raises; \<open>clock\<close> is the n-th reading of
  \<^verbatim>\<open>datetime.now()\<close>, as local date and as epoch seconds; \<open>randint\<close> is the n-th draw of
  \<^verbatim>\<open>random.randint(0, 0xFFFFFF)\<close>. \<open>zhdate\<close> is the lunar conversion of the \<^verbatim>\<open>zhdate\<close>
  library, \<open>repr\<close> is Python's text for floats, lists and dicts, and \<open>foreign_date\<close> is
  what \<^verbatim>\<open>parse_date\<close> does with a text that has a character outside ASCII, where
  \<^verbatim>\<open>strptime\<close> and \<^verbatim>\<open>int\<close> follow the Unicode tables of digits and spaces: all three belong
  to libraries, not to this program.
\<close>

record field_entry =
  val :: json
  color :: string

type_synonym dict = "(string \<times> field_entry) list"

record template_message =
  touser :: string
  template_id :: string
  url :: string
  topcolor :: string
  data :: dict

datatype request = HttpGet string | HttpPost string template_message

record env =
  net :: "nat \<Rightarrow> request \<Rightarrow> error + json"
  clock :: "nat \<Rightarrow> pydate \<times> rat"
  randint :: "nat \<Rightarrow> nat"
  zhdate :: "int \<Rightarrow> int \<Rightarrow> int \<Rightarrow> error + pydate"
  repr :: "json \<Rightarrow> string"
  foreign_date :: "string \<Rightarrow> error + pydate"

datatype log_event =
    RequestFailed error     \<comment> \<open>warning of line 49\<close>
  | WeatherFailed error     \<comment> \<open>error of line 149\<close>
  | TokenFailed json        \<comment> \<open>error of line 116\<close>
  | SendFailed json         \<comment> \<open>error of line 130\<close>
  | Summary int int         \<comment> \<open>info of line 213: sent, failed\<close>

type_synonym weather = "json \<times> string \<times> json"

record state =
  cache :: "string \<rightharpoonup> weather"
  access_token :: json
  token_expire :: pyfloat
  requests :: "request list"
  clock_reads :: nat
  rand_draws :: nat
  logged :: "log_event list"

text \<open>The state after the constructors of lines 38-40 and 101-105 have run.\<close>

definition init_state :: state where
  "init_state = \<lparr>cache = Map.empty, access_token = JNull, token_expire = Finite 0, requests = [],
                 clock_reads = 0, rand_draws = 0, logged = []\<rparr>"

record entry =
  name :: string
  date :: string

record config =
  app_id :: string
  app_secret :: string
  weather_key :: string
  template :: string
  region :: string
  user :: "string list"
  anniversaries :: "entry list option"
  birthdays :: "entry list option"
  redirect_url :: "string option"

definition http_get :: "env \<Rightarrow> string \<Rightarrow> state \<Rightarrow> (error + json) \<times> state" where
  "http_get E u s = (net E (length (requests s)) (HttpGet u),
                     s\<lparr>requests := requests s @ [HttpGet u]\<rparr>)"

definition http_post :: "env \<Rightarrow> string \<Rightarrow> template_message \<Rightarrow> state \<Rightarrow> (error + json) \<times> state" where
  "http_post E u body s = (net E (length (requests s)) (HttpPost u body),
                           s\<lparr>requests := requests s @ [HttpPost u body]\<rparr>)"

definition now :: "env \<Rightarrow> state \<Rightarrow> (pydate \<times> rat) \<times> state" where
  "now E s = (clock E (clock_reads s), s\<lparr>clock_reads := Suc (clock_reads s)\<rparr>)"

definition write_log :: "log_event \<Rightarrow> state \<Rightarrow> state" where
  "write_log ev s = s\<lparr>logged := logged s @ [ev]\<rparr>"

definition py_str :: "env \<Rightarrow> json \<Rightarrow> string" where
  "py_str E j = (case j of
       JStr s \<Rightarrow> s
     | JInt i \<Rightarrow> str_int i
     | JNull \<Rightarrow> ''None''
     | JBool b \<Rightarrow> (if b then ''True'' else ''False'')
     | _ \<Rightarrow> repr E j)"

section \<open>WeatherAPI\<close>

text \<open>
  \<^verbatim>\<open>get_with_retry\<close> (lines 42-50): the loop body requests and decodes; any exception is
  logged and the loop goes on; when the range is exhausted the method returns \<^verbatim>\<open>None\<close>.
\<close>

fun retry_loop :: "env \<Rightarrow> string \<Rightarrow> nat \<Rightarrow> state \<Rightarrow> json \<times> state" where
  "retry_loop E u 0 s = (JNull, s)"
| "retry_loop E u (Suc n) s =
     (case http_get E u s of
        (Inr j, s') \<Rightarrow> (j, s')
      | (Inl e, s') \<Rightarrow> retry_loop E u n (write_log (RequestFailed e) s'))"

definition get_with_retry :: "env \<Rightarrow> string \<Rightarrow> int \<Rightarrow> state \<Rightarrow> json \<times> state" where
  "get_with_retry E u max_retries s = retry_loop E u (nat max_retries) s"

definition location_url :: "string \<Rightarrow> string \<Rightarrow> string" where
  "location_url region_name api_key =
     ''https://geoapi.qweather.com/v2/city/lookup?location='' @ region_name @ ''&key='' @ api_key"

definition weather_url :: "string \<Rightarrow> string \<Rightarrow> string" where
  "weather_url location_id api_key =
     ''https://devapi.qweather.com/v7/weather/now?location='' @ location_id @ ''&key='' @ api_key"

definition degrees :: string where
  "degrees = [CHR 0xC2, CHR 0xB0, CHR 0x43]"

text \<open>Lines 64 and 73-77: the chains of subscripts, left to right.\<close>

definition location_id_of :: "json \<Rightarrow> error + json" where
  "location_id_of location_data =
     (case subscript_key location_data ''location'' of
        Inl e \<Rightarrow> Inl e
      | Inr l \<Rightarrow> (case subscript_zero l of
          Inl e \<Rightarrow> Inl e
        | Inr first \<Rightarrow> subscript_key first ''id''))"

definition now_field :: "json \<Rightarrow> string \<Rightarrow> error + json" where
  "now_field weather_data k =
     (case subscript_key weather_data ''now'' of
        Inl e \<Rightarrow> Inl e
      | Inr n \<Rightarrow> subscript_key n k)"

definition weather_result :: "env \<Rightarrow> json \<Rightarrow> error + weather" where
  "weather_result E weather_data =
     (case now_field weather_data ''text'' of
        Inl e \<Rightarrow> Inl e
      | Inr text \<Rightarrow> (case now_field weather_data ''temp'' of
          Inl e \<Rightarrow> Inl e
        | Inr temp \<Rightarrow> (case now_field weather_data ''windDir'' of
            Inl e \<Rightarrow> Inl e
          | Inr wind \<Rightarrow> Inr (text, py_str E temp @ degrees, wind))))"

text \<open>
  The test of lines 61 and 70, \<^verbatim>\<open>not d or d['code'] != '200'\<close>: \<open>Inr True\<close> when the
  response is rejected, \<open>Inl\<close> when the subscript raises. Only the string \<^verbatim>\<open>'200'\<close> is
  equal to \<^verbatim>\<open>'200'\<close>.
\<close>

definition rejected :: "json \<Rightarrow> error + bool" where
  "rejected d =
     (if \<not> truthy d then Inr True
      else (case subscript_key d ''code'' of
              Inl e \<Rightarrow> Inl e
            | Inr c \<Rightarrow> Inr (c \<noteq> JStr ''200'')))"

definition get_weather :: "env \<Rightarrow> string \<Rightarrow> string \<Rightarrow> state \<Rightarrow> (error + weather) \<times> state" where
  "get_weather E api_key region_name s =
     (case cache s region_name of
        Some r \<Rightarrow> (Inr r, s)
      | None \<Rightarrow>
         (let (location_data, s1) = get_with_retry E (location_url region_name api_key) 3 s
          in case rejected location_data of
               Inl e \<Rightarrow> (Inl e, s1)
             | Inr True \<Rightarrow> (Inl (ValueError RegionLookup), s1)
             | Inr False \<Rightarrow>
                (case location_id_of location_data of
                   Inl e \<Rightarrow> (Inl e, s1)
                 | Inr location_id \<Rightarrow>
                    (let (weather_data, s2) =
                           get_with_retry E (weather_url (py_str E location_id) api_key) 3 s1
                     in case rejected weather_data of
                          Inl e \<Rightarrow> (Inl e, s2)
                        | Inr True \<Rightarrow> (Inl (ValueError WeatherLookup), s2)
                        | Inr False \<Rightarrow>
                           (case weather_result E weather_data of
                              Inl e \<Rightarrow> (Inl e, s2)
                            | Inr result \<Rightarrow>
                                (Inr result, s2\<lparr>cache := (cache s2)(region_name \<mapsto> result)\<rparr>))))))"

section \<open>DateCalculator\<close>

definition get_color :: "env \<Rightarrow> state \<Rightarrow> string \<times> state" where
  "get_color E s = (CHR ''#'' # zfill 6 (hex_nat (randint E (rand_draws s))),
                    s\<lparr>rand_draws := Suc (rand_draws s)\<rparr>)"

definition calculate_days :: "pydate \<Rightarrow> pydate \<Rightarrow> int" where
  "calculate_days start_date end_date = toordinal end_date - toordinal start_date"

definition parse_lunar :: "env \<Rightarrow> string \<Rightarrow> error + pydate" where
  "parse_lunar E text =
     (let parts = split_on CHR ''-'' text
      in case part parts 0 of Inl e \<Rightarrow> Inl e | Inr p0 \<Rightarrow>
         (case py_int p0 of Inl e \<Rightarrow> Inl e | Inr y \<Rightarrow>
         (case part parts 1 of Inl e \<Rightarrow> Inl e | Inr p1 \<Rightarrow>
         (case py_int p1 of Inl e \<Rightarrow> Inl e | Inr m \<Rightarrow>
         (case part parts 2 of Inl e \<Rightarrow> Inl e | Inr p2 \<Rightarrow>
         (case py_int p2 of Inl e \<Rightarrow> Inl e | Inr d \<Rightarrow> zhdate E y m d))))))"

text \<open>
  \<open>strptime_ymd\<close>, \<open>py_int\<close> and \<open>strip\<close> are the library functions on ASCII text. A text
  with any other character is left to the oracle \<open>foreign_date\<close>.
\<close>

definition is_ascii :: "string \<Rightarrow> bool" where
  "is_ascii s = list_all (\<lambda>c. (of_char c :: nat) < 128) s"

definition parse_date :: "env \<Rightarrow> string \<Rightarrow> error + pydate" where
  "parse_date E date_str =
     (if \<not> is_ascii date_str then foreign_date E date_str
      else (case date_str of
              c # rest \<Rightarrow> if c = CHR ''r'' then parse_lunar E rest else strptime_ymd date_str
            | [] \<Rightarrow> strptime_ymd date_str))"

section \<open>WeChatService\<close>

definition token_url :: "string \<Rightarrow> string \<Rightarrow> string" where
  "token_url app app_sec =
     ''https://api.weixin.qq.com/cgi-bin/token?grant_type=client_credential&appid='' @ app
       @ ''&secret='' @ app_sec"

definition send_url :: "string \<Rightarrow> string" where
  "send_url token =
     ''https://api.weixin.qq.com/cgi-bin/message/template/send?access_token='' @ token"

text \<open>
  Lines 112-121, reached when the cached token is not served. The token is stored (line
  119) before \<^verbatim>\<open>expires_in\<close> is read (line 120), and line 120 reads the clock again.
\<close>

definition refresh_token :: "env \<Rightarrow> string \<Rightarrow> string \<Rightarrow> state \<Rightarrow> (error + json) \<times> state" where
  "refresh_token E app app_sec s =
     (case http_get E (token_url app app_sec) s of
        (Inl e, s1) \<Rightarrow> (Inl e, s1)
      | (Inr response, s1) \<Rightarrow>
         (case py_in ''access_token'' response of
            Inl e \<Rightarrow> (Inl e, s1)
          | Inr False \<Rightarrow> (Inl (ValueError WeChatAuth), write_log (TokenFailed response) s1)
          | Inr True \<Rightarrow>
             (case subscript_key response ''access_token'' of
                Inl e \<Rightarrow> (Inl e, s1)
              | Inr token \<Rightarrow>
                 (let s2 = s1\<lparr>access_token := token\<rparr>;
                      (t, s3) = now E s2
                  in case subscript_key response ''expires_in'' of
                       Inl e \<Rightarrow> (Inl e, s3)
                     | Inr expires_in \<Rightarrow>
                        (case float_plus (Finite (snd t)) expires_in of
                           Inl e \<Rightarrow> (Inl e, s3)
                         | Inr x \<Rightarrow>
                            (let s4 = s3\<lparr>token_expire := float_sub x (Finite 300)\<rparr>
                             in (Inr (access_token s4), s4)))))))"

definition get_access_token :: "env \<Rightarrow> string \<Rightarrow> string \<Rightarrow> state \<Rightarrow> (error + json) \<times> state" where
  "get_access_token E app app_sec s =
     (let (t, s1) = now E s
      in if float_less (Finite (snd t)) (token_expire s1) then (Inr (access_token s1), s1)
         else refresh_token E app app_sec s1)"

definition send_template_message ::
    "env \<Rightarrow> string \<Rightarrow> string \<Rightarrow> string \<Rightarrow> template_message \<Rightarrow> state \<Rightarrow> (error + bool) \<times> state" where
  "send_template_message E app app_sec user_id template_data s =
     (case get_access_token E app app_sec s of
        (Inl e, s1) \<Rightarrow> (Inl e, s1)
      | (Inr token, s1) \<Rightarrow>
         (case http_post E (send_url (py_str E token)) template_data s1 of
            (Inl e, s2) \<Rightarrow> (Inl e, s2)
          | (Inr result, s2) \<Rightarrow>
             (case py_get result ''errcode'' of
                Inl e \<Rightarrow> (Inl e, s2)
              | Inr errcode \<Rightarrow>
                 if ne_zero errcode then (Inr False, write_log (SendFailed result) s2)
                 else (Inr True, s2))))"

section \<open>MessageGenerator\<close>

definition week_list :: "string list" where
  "week_list =
     [[CHR 0xE6, CHR 0x98, CHR 0x9F, CHR 0xE6, CHR 0x9C, CHR 0x9F, CHR 0xE6, CHR 0x97, CHR 0xA5],
      [CHR 0xE6, CHR 0x98, CHR 0x9F, CHR 0xE6, CHR 0x9C, CHR 0x9F, CHR 0xE4, CHR 0xB8, CHR 0x80],
      [CHR 0xE6, CHR 0x98, CHR 0x9F, CHR 0xE6, CHR 0x9C, CHR 0x9F, CHR 0xE4, CHR 0xBA, CHR 0x8C],
      [CHR 0xE6, CHR 0x98, CHR 0x9F, CHR 0xE6, CHR 0x9C, CHR 0x9F, CHR 0xE4, CHR 0xB8, CHR 0x89],
      [CHR 0xE6, CHR 0x98, CHR 0x9F, CHR 0xE6, CHR 0x9C, CHR 0x9F, CHR 0xE5, CHR 0x9B, CHR 0x9B],
      [CHR 0xE6, CHR 0x98, CHR 0x9F, CHR 0xE6, CHR 0x9C, CHR 0x9F, CHR 0xE4, CHR 0xBA, CHR 0x94],
      [CHR 0xE6, CHR 0x98, CHR 0x9F, CHR 0xE6, CHR 0x9C, CHR 0x9F, CHR 0xE5, CHR 0x85, CHR 0xAD]]"

text \<open>The literals of lines 150, 173, 185 and 187, as UTF-8.\<close>

definition unknown :: string where
  "unknown = [CHR 0xE6, CHR 0x9C, CHR 0xAA, CHR 0xE7, CHR 0x9F, CHR 0xA5]"

definition already :: string where
  "already = [CHR 0xE5, CHR 0xB7, CHR 0xB2, CHR 0xE7, CHR 0xBB, CHR 0x8F, CHR 0x20]"

definition days_suffix :: string where
  "days_suffix = [CHR 0xE5, CHR 0xA4, CHR 0xA9]"

definition birthday_word :: string where
  "birthday_word = [CHR 0xE7, CHR 0x94, CHR 0x9F, CHR 0xE6, CHR 0x97, CHR 0xA5]"

definition birthday_today :: string where
  "birthday_today = [CHR 0xE4, CHR 0xBB, CHR 0x8A, CHR 0xE5, CHR 0xA4, CHR 0xA9, CHR 0xE7, CHR 0x94,
                     CHR 0x9F, CHR 0xE6, CHR 0x97, CHR 0xA5, CHR 0xEF, CHR 0xBC, CHR 0x81]"

definition still :: string where
  "still = [CHR 0xE8, CHR 0xBF, CHR 0x98, CHR 0xE6, CHR 0x9C, CHR 0x89]"

text \<open>\<^verbatim>\<open>d[k] = v\<close> and \<^verbatim>\<open>{**a, **b}\<close> on insertion-ordered dicts.\<close>

definition dict_merge :: "dict \<Rightarrow> dict \<Rightarrow> dict" where
  "dict_merge a b = foldl (\<lambda>d (k, v). AList.update k v d) a b"

text \<open>Lines 181-183: the birthday in this year, or in the next when it has passed.\<close>

definition next_birthday :: "pydate \<Rightarrow> pydate \<Rightarrow> error + pydate" where
  "next_birthday birth_date today =
     (case replace_year birth_date (year today) of
        Inl e \<Rightarrow> Inl e
      | Inr nb \<Rightarrow> if date_less nb today then replace_year nb (year today + 1) else Inr nb)"

text \<open>Line 185.\<close>

definition status :: "int \<Rightarrow> string" where
  "status days = (if days = 0 then birthday_today else still @ str_int days @ days_suffix)"

text \<open>The loop of lines 169-175, over the entries from index \<open>idx\<close> on.\<close>

fun anniversary_loop ::
    "env \<Rightarrow> pydate \<Rightarrow> nat \<Rightarrow> entry list \<Rightarrow> dict \<Rightarrow> state \<Rightarrow> (error + dict) \<times> state" where
  "anniversary_loop E today idx [] anniversary_data s = (Inr anniversary_data, s)"
| "anniversary_loop E today idx (ann # rest) anniversary_data s =
     (case parse_date E (date ann) of
        Inl e \<Rightarrow> (Inl e, s)
      | Inr start_date \<Rightarrow>
         (let days = calculate_days start_date today;
              (c, s1) = get_color E s
          in anniversary_loop E today (Suc idx) rest
               (AList.update (''anniversary_'' @ str_nat idx)
                  \<lparr>val = JStr (name ann @ already @ str_int days @ '' '' @ days_suffix), color = c\<rparr>
                  anniversary_data) s1))"

text \<open>The loop of lines 179-189.\<close>

fun birthday_loop ::
    "env \<Rightarrow> pydate \<Rightarrow> nat \<Rightarrow> entry list \<Rightarrow> dict \<Rightarrow> state \<Rightarrow> (error + dict) \<times> state" where
  "birthday_loop E today idx [] birthday_data s = (Inr birthday_data, s)"
| "birthday_loop E today idx (bd # rest) birthday_data s =
     (case parse_date E (date bd) of
        Inl e \<Rightarrow> (Inl e, s)
      | Inr birth_date \<Rightarrow>
         (case next_birthday birth_date today of
            Inl e \<Rightarrow> (Inl e, s)
          | Inr nb \<Rightarrow>
             (let days = toordinal nb - toordinal today;
                  (c, s1) = get_color E s
              in birthday_loop E today (Suc idx) rest
                   (AList.update (''birthday_'' @ str_nat idx)
                      \<lparr>val = JStr (name bd @ birthday_word @ status days), color = c\<rparr>
                      birthday_data) s1)))"

text \<open>Lines 146-150: the weather, or the placeholder when the lookup raises.\<close>

definition weather_or_unknown ::
    "env \<Rightarrow> config \<Rightarrow> state \<Rightarrow> (json \<times> json \<times> json) \<times> state" where
  "weather_or_unknown E cfg s =
     (case get_weather E (weather_key cfg) (region cfg) s of
        (Inr (text, temp, wind_dir), s1) \<Rightarrow> ((text, JStr temp, wind_dir), s1)
      | (Inl e, s1) \<Rightarrow> ((JStr unknown, JStr unknown, JStr unknown), write_log (WeatherFailed e) s1))"

text \<open>Lines 153-165: the dict literal draws its five colours in the order of its keys.\<close>

definition base_data :: "env \<Rightarrow> config \<Rightarrow> pydate \<Rightarrow> json \<times> json \<times> json \<Rightarrow> state \<Rightarrow> dict \<times> state" where
  "base_data E cfg today w s =
     (let (c1, s1) = get_color E s;
          (c2, s2) = get_color E s1;
          (c3, s3) = get_color E s2;
          (c4, s4) = get_color E s3;
          (c5, s5) = get_color E s4
      in ([(''date'', \<lparr>val = JStr (isoformat today @ '' '' @ week_list ! weekday today), color = c1\<rparr>),
           (''region'', \<lparr>val = JStr (region cfg), color = c2\<rparr>),
           (''weather'', \<lparr>val = fst w, color = c3\<rparr>),
           (''temp'', \<lparr>val = fst (snd w), color = c4\<rparr>),
           (''wind_dir'', \<lparr>val = snd (snd w), color = c5\<rparr>)], s5))"

definition entries :: "entry list option \<Rightarrow> entry list" where
  "entries l = (case l of None \<Rightarrow> [] | Some es \<Rightarrow> es)"

definition generate_message_data :: "env \<Rightarrow> config \<Rightarrow> state \<Rightarrow> (error + dict) \<times> state" where
  "generate_message_data E cfg s =
     (let (t, s0) = now E s;
          today = fst t;
          (w, s1) = weather_or_unknown E cfg s0;
          (base, s2) = base_data E cfg today w s1
      in case anniversary_loop E today 0 (entries (anniversaries cfg)) [] s2 of
           (Inl e, s3) \<Rightarrow> (Inl e, s3)
         | (Inr anniversary_data, s3) \<Rightarrow>
            (case birthday_loop E today 0 (entries (birthdays cfg)) [] s3 of
               (Inl e, s4) \<Rightarrow> (Inl e, s4)
             | (Inr birthday_data, s4) \<Rightarrow>
                (Inr (dict_merge (dict_merge base anniversary_data) birthday_data), s4)))"

section \<open>The thread pool\<close>

text \<open>
  Lines 202-212 hand one call of \<open>send_template_message\<close> per recipient to a pool of five
  threads, which share the \<open>WeChatService\<close> object and take no lock. A call is followed
  here from one access to shared data to the next: the value of \<open>call\<close> is the place the
  call has reached, with the local values it holds there.
\<close>

datatype call =
    Queued                  \<comment> \<open>submitted, not yet taken by a thread\<close>
  | Started                 \<comment> \<open>taken by a thread; line 109 is next\<close>
  | CacheHit                \<comment> \<open>line 109 held; line 110 reads the token next\<close>
  | Refresh                 \<comment> \<open>line 109 did not hold; line 113 requests a token next\<close>
  | Responded json          \<comment> \<open>line 113 returned this response; lines 115-119 are next\<close>
  | TokenStored json        \<comment> \<open>line 119 has stored the token; line 120 is next\<close>
  | ExpiryStored            \<comment> \<open>line 120 has stored the expiry; line 121 reads the token next\<close>
  | HaveToken json          \<comment> \<open>\<open>get_access_token\<close> returned this; lines 125-132 are next\<close>
  | Failed error            \<comment> \<open>\<open>get_access_token\<close> raised: the call is over, nothing was posted\<close>
  | Done "error + bool"     \<comment> \<open>the POST was issued: the call raised after it or returned\<close>

fun call_step ::
    "env \<Rightarrow> string \<Rightarrow> string \<Rightarrow> template_message \<Rightarrow> call \<Rightarrow> state \<Rightarrow> call \<times> state" where
  "call_step E app app_sec m Queued s = (Started, s)"
| "call_step E app app_sec m Started s =
     (let (t, s1) = now E s
      in (if float_less (Finite (snd t)) (token_expire s1) then CacheHit else Refresh, s1))"
| "call_step E app app_sec m CacheHit s = (HaveToken (access_token s), s)"
| "call_step E app app_sec m Refresh s =
     (case http_get E (token_url app app_sec) s of
        (Inl e, s1) \<Rightarrow> (Failed e, s1)
      | (Inr response, s1) \<Rightarrow> (Responded response, s1))"
| "call_step E app app_sec m (Responded response) s =
     (case py_in ''access_token'' response of
        Inl e \<Rightarrow> (Failed e, s)
      | Inr False \<Rightarrow> (Failed (ValueError WeChatAuth), write_log (TokenFailed response) s)
      | Inr True \<Rightarrow>
         (case subscript_key response ''access_token'' of
            Inl e \<Rightarrow> (Failed e, s)
          | Inr token \<Rightarrow> (TokenStored response, s\<lparr>access_token := token\<rparr>)))"
| "call_step E app app_sec m (TokenStored response) s =
     (let (t, s1) = now E s
      in case subscript_key response ''expires_in'' of
           Inl e \<Rightarrow> (Failed e, s1)
         | Inr expires_in \<Rightarrow>
            (case float_plus (Finite (snd t)) expires_in of
               Inl e \<Rightarrow> (Failed e, s1)
             | Inr x \<Rightarrow> (ExpiryStored, s1\<lparr>token_expire := float_sub x (Finite 300)\<rparr>)))"
| "call_step E app app_sec m ExpiryStored s = (HaveToken (access_token s), s)"
| "call_step E app app_sec m (HaveToken token) s =
     (case http_post E (send_url (py_str E token)) m s of
        (Inl e, s1) \<Rightarrow> (Done (Inl e), s1)
      | (Inr result, s1) \<Rightarrow>
         (case py_get result ''errcode'' of
            Inl e \<Rightarrow> (Done (Inl e), s1)
          | Inr errcode \<Rightarrow>
             if ne_zero errcode then (Done (Inr False), write_log (SendFailed result) s1)
             else (Done (Inr True), s1)))"
| "call_step E app app_sec m (Failed e) s = (Failed e, s)"
| "call_step E app app_sec m (Done r) s = (Done r, s)"

text \<open>What \<^verbatim>\<open>f.result()\<close> gives for a call that is over: the value, or the exception.\<close>

fun outcome :: "call \<Rightarrow> (error + bool) option" where
  "outcome (Failed e) = Some (Inl e)"
| "outcome (Done r) = Some r"
| "outcome _ = None"

definition finished :: "call \<Rightarrow> bool" where
  "finished c = (outcome c \<noteq> None)"

definition running :: "call \<Rightarrow> bool" where
  "running c = (c \<noteq> Queued \<and> \<not> finished c)"

text \<open>
  The pool holds one call per recipient, in the order of submission. The scheduler picks
  the call that moves next; a call that is over does not move, and a queued call is
  taken only when fewer than five calls are running and every call submitted before it
  has been taken. A schedule is the list of the scheduler's picks.
\<close>

definition may_step :: "call list \<Rightarrow> nat \<Rightarrow> bool" where
  "may_step cs i =
     (i < length cs \<and> \<not> finished (cs ! i)
      \<and> (cs ! i = Queued \<longrightarrow>
            length (filter running cs) < 5 \<and> list_all (\<lambda>c. c \<noteq> Queued) (take i cs)))"

definition pool_step ::
    "env \<Rightarrow> config \<Rightarrow> template_message \<Rightarrow> call list \<times> state \<Rightarrow> nat \<Rightarrow> call list \<times> state" where
  "pool_step E cfg template_data p i =
     (if may_step (fst p) i
      then (let (c, s) = call_step E (app_id cfg) (app_secret cfg)
                           (template_data\<lparr>touser := user cfg ! i\<rparr>) (fst p ! i) (snd p)
            in ((fst p)[i := c], s))
      else p)"

definition run_pool ::
    "env \<Rightarrow> config \<Rightarrow> template_message \<Rightarrow> nat list \<Rightarrow> call list \<times> state \<Rightarrow> call list \<times> state" where
  "run_pool E cfg template_data schedule p = foldl (pool_step E cfg template_data) p schedule"

text \<open>
  Line 212 reads the results in the order of submission and stops at the first exception,
  which leaves \<open>send_messages\<close> after the \<^verbatim>\<open>with\<close> block has waited for every call.
\<close>

fun results_of :: "(error + bool) list \<Rightarrow> error + bool list" where
  "results_of [] = Inr []"
| "results_of (Inl e # fs) = Inl e"
| "results_of (Inr b # fs) = (case results_of fs of Inl e \<Rightarrow> Inl e | Inr bs \<Rightarrow> Inr (b # bs))"

definition py_sum :: "bool list \<Rightarrow> int" where
  "py_sum bs = int (length (filter (\<lambda>b. b) bs))"

definition message_of :: "config \<Rightarrow> dict \<Rightarrow> template_message" where
  "message_of cfg d =
     \<lparr>touser = [], template_id = template cfg,
      url = (case redirect_url cfg of None \<Rightarrow> ''http://weixin.qq.com/download'' | Some u \<Rightarrow> u),
      topcolor = ''#FF0000'', data = d\<rparr>"

text \<open>
  \<open>send_messages\<close> under a schedule. The result is \<open>None\<close> when the schedule stops while a
  call is still queued or running, which is no run of the program: the \<^verbatim>\<open>with\<close> block
  waits.
\<close>

definition send_messages ::
    "env \<Rightarrow> config \<Rightarrow> nat list \<Rightarrow> state \<Rightarrow> ((error + unit) \<times> state) option" where
  "send_messages E cfg schedule s =
     (case generate_message_data E cfg s of
        (Inl e, s1) \<Rightarrow> Some (Inl e, s1)
      | (Inr d, s1) \<Rightarrow>
         (let (cs, s2) = run_pool E cfg (message_of cfg d) schedule
                           (replicate (length (user cfg)) Queued, s1)
          in case those (map outcome cs) of
               None \<Rightarrow> None
             | Some futures \<Rightarrow>
                (case results_of futures of
                   Inl e \<Rightarrow> Some (Inl e, s2)
                 | Inr results \<Rightarrow>
                    Some (Inr (), write_log (Summary (py_sum results)
                                   (int (length results) - py_sum results)) s2))))"

text \<open>The schedule of a pool that runs one call after the other.\<close>

definition one_by_one :: "nat \<Rightarrow> nat list" where
  "one_by_one n = concat (map (replicate 8) [0 ..< n])"

text \<open>What a run leaves behind: the requests and the log lines of each kind.\<close>

definition posts_to :: "(string \<Rightarrow> bool) \<Rightarrow> request list \<Rightarrow> nat" where
  "posts_to Q rs = length (filter (\<lambda>r. case r of HttpPost u m \<Rightarrow> Q (touser m) | HttpGet u \<Rightarrow> False) rs)"

definition token_requests :: "config \<Rightarrow> request list \<Rightarrow> nat" where
  "token_requests cfg rs = length (filter (\<lambda>r. r = HttpGet (token_url (app_id cfg) (app_secret cfg))) rs)"

definition send_failures :: "log_event list \<Rightarrow> nat" where
  "send_failures l = length (filter (\<lambda>ev. case ev of SendFailed r \<Rightarrow> True | _ \<Rightarrow> False) l)"

definition summaries :: "log_event list \<Rightarrow> (int \<times> int) list" where
  "summaries l = concat (map (\<lambda>ev. case ev of Summary a b \<Rightarrow> [(a, b)] | _ \<Rightarrow> []) l)"

fun posted :: "call \<Rightarrow> bool" where
  "posted (Done r) = True"
| "posted _ = False"

fun before_fetch :: "call \<Rightarrow> bool" where
  "before_fetch Queued = True"
| "before_fetch Started = True"
| "before_fetch Refresh = True"
| "before_fetch _ = False"

text \<open>An upper bound on the steps a call has left.\<close>

fun steps_left :: "call \<Rightarrow> nat" where
  "steps_left Queued = 7"
| "steps_left Started = 6"
| "steps_left Refresh = 5"
| "steps_left (Responded r) = 4"
| "steps_left (TokenStored r) = 3"
| "steps_left ExpiryStored = 2"
| "steps_left CacheHit = 2"
| "steps_left (HaveToken t) = 1"
| "steps_left (Failed e) = 0"
| "steps_left (Done r) = 0"

section \<open>Sample worlds\<close>

text \<open>
  A world whose network answers the n-th request with the n-th element of a script and
  fails every request after the script's end; the clock starts on 2024-03-15.
\<close>

definition scripted :: "(error + json) list \<Rightarrow> nat \<Rightarrow> request \<Rightarrow> error + json" where
  "scripted answers i r = (if i < length answers then answers ! i else Inl RequestException)"

definition world :: "(error + json) list \<Rightarrow> env" where
  "world answers = \<lparr>net = scripted answers,
     clock = (\<lambda>n. (\<lparr>year = 2024, month = 3, day = 15\<rparr>, 1710000000 + of_nat n)),
     randint = (\<lambda>n. n), zhdate = (\<lambda>y m d. Inl TypeError), repr = (\<lambda>j. ''?''),
     foreign_date = (\<lambda>s. Inl (ValueError TimeData))\<rparr>"


definition token_reply :: json where
  "token_reply = JObj [(''access_token'', JStr ''T0''), (''expires_in'', JInt 7200)]"

definition sample_message :: template_message where
  "sample_message = \<lparr>touser = ''u1'', template_id = ''tpl'', url = ''http://weixin.qq.com/download'',
                      topcolor = ''#FF0000'', data = []\<rparr>"

definition geo_reply :: json where
  "geo_reply = JObj [(''code'', JStr ''200''), (''location'', JList [JObj [(''id'', JStr ''101010100'')]])]"

definition weather_reply :: json where
  "weather_reply = JObj [(''code'', JStr ''200''),
     (''now'', JObj [(''text'', JStr ''Sunny''), (''temp'', JStr ''24''), (''windDir'', JStr ''N'')])]"

definition sunny :: weather where
  "sunny = (JStr ''Sunny'', ''24'' @ degrees, JStr ''N'')"

definition sample_config :: config where
  "sample_config = \<lparr>app_id = ''id'', app_secret = ''key'', weather_key = ''k'', template = ''tpl'',
     region = ''Beijing'', user = [''u1'', ''u2''], anniversaries = None, birthdays = None,
     redirect_url = None\<rparr>"



definition config_dates :: config where
  "config_dates = sample_config\<lparr>
     anniversaries := Some [\<lparr>name = ''Wedding'', date = ''2020-01-01''\<rparr>],
     birthdays := Some [\<lparr>name = ''Ann'', date = ''1990-03-15''\<rparr>]\<rparr>"

section \<open>Bounded retry\<close>

lemma requests_write_log [simp]: "requests (write_log ev s) = requests s"
  by (simp add: write_log_def)

lemma http_get_requests: "requests (snd (http_get E u s)) = requests s @ [HttpGet u]"
  by (simp add: http_get_def)

lemma http_get_fst: "fst (http_get E u s) = net E (length (requests s)) (HttpGet u)"
  by (simp add: http_get_def)

lemma retry_loop_spec:
  "\<exists>k\<le>n. requests (snd (retry_loop E u n s)) = requests s @ replicate k (HttpGet u)
     \<and> ((\<forall>i<n. isl (net E (length (requests s) + i) (HttpGet u)))
          \<longrightarrow> k = n \<and> fst (retry_loop E u n s) = JNull)
     \<and> (\<forall>i<n. \<forall>j. net E (length (requests s) + i) (HttpGet u) = Inr j
            \<and> (\<forall>i'<i. isl (net E (length (requests s) + i') (HttpGet u)))
          \<longrightarrow> k = Suc i \<and> fst (retry_loop E u n s) = j)"
proof (induction n arbitrary: s)
  case 0
  show ?case by simp
next
  case (Suc n)
  let ?a = "net E (length (requests s)) (HttpGet u)"
  show ?case
  proof (cases ?a)
    case (Inr j)
    have r: "retry_loop E u (Suc n) s = (j, s\<lparr>requests := requests s @ [HttpGet u]\<rparr>)"
      using Inr by (simp add: http_get_def)
    have "\<And>i j'. net E (length (requests s) + i) (HttpGet u) = Inr j'
            \<and> (\<forall>i'<i. isl (net E (length (requests s) + i') (HttpGet u))) \<Longrightarrow> i = 0 \<and> j' = j"
    proof -
      fix i j' assume h: "net E (length (requests s) + i) (HttpGet u) = Inr j'
            \<and> (\<forall>i'<i. isl (net E (length (requests s) + i') (HttpGet u)))"
      have "i = 0"
      proof (rule ccontr)
        assume "i \<noteq> 0" then have "0 < i" by simp
        with h have "isl (net E (length (requests s) + 0) (HttpGet u))" by blast
        with Inr show False by simp
      qed
      with h Inr show "i = 0 \<and> j' = j" by simp
    qed
    then show ?thesis
      using Inr r by (intro exI[of _ 1]) fastforce
  next
    case (Inl e)
    define s' where "s' = write_log (RequestFailed e) (s\<lparr>requests := requests s @ [HttpGet u]\<rparr>)"
    have r: "retry_loop E u (Suc n) s = retry_loop E u n s'"
      using Inl by (simp add: http_get_def s'_def)
    have len: "length (requests s') = Suc (length (requests s))" and rq: "requests s' = requests s @ [HttpGet u]"
      by (simp_all add: s'_def)
    from Suc.IH[of s'] obtain k where k: "k \<le> n"
      "requests (snd (retry_loop E u n s')) = requests s' @ replicate k (HttpGet u)"
      "(\<forall>i<n. isl (net E (length (requests s') + i) (HttpGet u)))
          \<longrightarrow> k = n \<and> fst (retry_loop E u n s') = JNull"
      "\<forall>i<n. \<forall>j. net E (length (requests s') + i) (HttpGet u) = Inr j
            \<and> (\<forall>i'<i. isl (net E (length (requests s') + i') (HttpGet u)))
          \<longrightarrow> k = Suc i \<and> fst (retry_loop E u n s') = j" by blast
    have A: "requests (snd (retry_loop E u (Suc n) s)) = requests s @ replicate (Suc k) (HttpGet u)"
      using k(2) r rq by simp
    have B: "(\<forall>i<Suc n. isl (net E (length (requests s) + i) (HttpGet u)))
          \<longrightarrow> Suc k = Suc n \<and> fst (retry_loop E u (Suc n) s) = JNull"
    proof
      assume all: "\<forall>i<Suc n. isl (net E (length (requests s) + i) (HttpGet u))"
      have "\<forall>i<n. isl (net E (length (requests s') + i) (HttpGet u))"
      proof (intro allI impI)
        fix i assume "i < n"
        then have "Suc i < Suc n" by simp
        with all have "isl (net E (length (requests s) + Suc i) (HttpGet u))" by blast
        then show "isl (net E (length (requests s') + i) (HttpGet u))" by (simp add: len)
      qed
      with k(3) r show "Suc k = Suc n \<and> fst (retry_loop E u (Suc n) s) = JNull" by simp
    qed
    have C: "\<forall>i<Suc n. \<forall>j. net E (length (requests s) + i) (HttpGet u) = Inr j
            \<and> (\<forall>i'<i. isl (net E (length (requests s) + i') (HttpGet u)))
          \<longrightarrow> Suc k = Suc i \<and> fst (retry_loop E u (Suc n) s) = j"
    proof (intro allI impI)
      fix i j assume i: "i < Suc n" and h: "net E (length (requests s) + i) (HttpGet u) = Inr j
            \<and> (\<forall>i'<i. isl (net E (length (requests s) + i') (HttpGet u)))"
      have "i \<noteq> 0" using h Inl by (cases i) auto
      then obtain m where m: "i = Suc m" by (cases i) auto
      have m1: "m < n" using i m by simp
      have m2: "net E (length (requests s') + m) (HttpGet u) = Inr j" using h m by (simp add: len)
      have m3: "\<forall>i'<m. isl (net E (length (requests s') + i') (HttpGet u))"
      proof (intro allI impI)
        fix i' assume "i' < m"
        then have "Suc i' < i" using m by simp
        with h have "isl (net E (length (requests s) + Suc i') (HttpGet u))" by blast
        then show "isl (net E (length (requests s') + i') (HttpGet u))" by (simp add: len)
      qed
      from k(4) m1 m2 m3 have "k = Suc m \<and> fst (retry_loop E u n s') = j" by blast
      then show "Suc k = Suc i \<and> fst (retry_loop E u (Suc n) s) = j" using m r by simp
    qed
    show ?thesis
      using k(1) A B C by (intro exI[of _ "Suc k"]) blast
  qed
qed


lemma get_with_retry_spec:
  assumes "0 < n"
  shows "\<exists>k. 1 \<le> k \<and> k \<le> nat n
     \<and> requests (snd (get_with_retry E u n s)) = requests s @ replicate k (HttpGet u)
     \<and> ((\<forall>i<nat n. isl (net E (length (requests s) + i) (HttpGet u)))
          \<longrightarrow> k = nat n \<and> fst (get_with_retry E u n s) = JNull)
     \<and> (\<forall>i<nat n. \<forall>j. net E (length (requests s) + i) (HttpGet u) = Inr j
            \<and> (\<forall>i'<i. isl (net E (length (requests s) + i') (HttpGet u)))
          \<longrightarrow> k = Suc i \<and> fst (get_with_retry E u n s) = j)"
proof -
  from retry_loop_spec[of "nat n" E u s] obtain k where k: "k \<le> nat n"
    "requests (snd (retry_loop E u (nat n) s)) = requests s @ replicate k (HttpGet u)"
    "(\<forall>i<nat n. isl (net E (length (requests s) + i) (HttpGet u)))
          \<longrightarrow> k = nat n \<and> fst (retry_loop E u (nat n) s) = JNull"
    "\<forall>i<nat n. \<forall>j. net E (length (requests s) + i) (HttpGet u) = Inr j
            \<and> (\<forall>i'<i. isl (net E (length (requests s) + i') (HttpGet u)))
          \<longrightarrow> k = Suc i \<and> fst (retry_loop E u (nat n) s) = j" by blast
  have "1 \<le> k"
  proof (cases "\<forall>i<nat n. isl (net E (length (requests s) + i) (HttpGet u))")
    case True
    with k(3) assms show ?thesis by simp
  next
    case False
    then obtain i where i: "i < nat n" "\<not> isl (net E (length (requests s) + i) (HttpGet u))" by blast
    define m where "m = (LEAST i. \<not> isl (net E (length (requests s) + i) (HttpGet u)))"
    have m1: "\<not> isl (net E (length (requests s) + m) (HttpGet u))"
      unfolding m_def using i(2) by (rule LeastI)
    have m2: "\<forall>i'<m. isl (net E (length (requests s) + i') (HttpGet u))"
      unfolding m_def using not_less_Least by blast
    have m3: "m < nat n" using i m_def by (meson Least_le le_less_trans)
    from m1 obtain j where "net E (length (requests s) + m) (HttpGet u) = Inr j"
      by (cases "net E (length (requests s) + m) (HttpGet u)") auto
    with k(4) m2 m3 have "k = Suc m" by blast
    then show ?thesis by simp
  qed
  with k show ?thesis unfolding get_with_retry_def by blast
qed

text \<open>
  Claim C6. For every URL and every positive retry budget \<open>n\<close>, \<open>get_with_retry\<close> issues
  between one and \<open>n\<close> requests, all of them GETs of that URL. When an attempt succeeds
  after failures only, its decoded body is returned and no further attempt is made; when
  all \<open>n\<close> attempts raise, exactly \<open>n\<close> attempts are made and the value returned is
  \<^verbatim>\<open>None\<close>. The method has no exceptional outcome: every exception of an attempt is
  caught by the loop.
\<close>

theorem get_with_retry_bounded:
  assumes "0 < n"
  shows "\<exists>k. 1 \<le> k \<and> k \<le> nat n
     \<and> requests (snd (get_with_retry E u n s)) = requests s @ replicate k (HttpGet u)
     \<and> ((\<forall>i<nat n. isl (net E (length (requests s) + i) (HttpGet u)))
          \<longrightarrow> k = nat n \<and> fst (get_with_retry E u n s) = JNull)
     \<and> (\<forall>i<nat n. \<forall>j. net E (length (requests s) + i) (HttpGet u) = Inr j
            \<and> (\<forall>i'<i. isl (net E (length (requests s) + i') (HttpGet u)))
          \<longrightarrow> k = Suc i \<and> fst (get_with_retry E u n s) = j)"
  using assms by (rule get_with_retry_spec)

theorem get_with_retry_bounded_witness:
  "(0::int) < 3
   \<and> fst (get_with_retry (world [Inl RequestException, Inr (JInt 7)]) ''u'' 3 init_state) = JInt 7
   \<and> requests (snd (get_with_retry (world [Inl RequestException, Inr (JInt 7)]) ''u'' 3 init_state))
       = [HttpGet ''u'', HttpGet ''u'']
   \<and> fst (get_with_retry (world []) ''u'' 3 init_state) = JNull
   \<and> requests (snd (get_with_retry (world []) ''u'' 3 init_state))
       = [HttpGet ''u'', HttpGet ''u'', HttpGet ''u'']"
proof -
  let ?E = "world [Inl RequestException, Inr (JInt 7)]"
  have n: "(0::int) < 3" by simp
  have nat3: "nat 3 = 3" by simp
  from get_with_retry_bounded[OF n, of ?E "''u''" init_state] obtain k where k:
    "requests (snd (get_with_retry ?E ''u'' 3 init_state)) = requests init_state @ replicate k (HttpGet ''u'')"
    "\<forall>i<nat 3. \<forall>j. net ?E (length (requests init_state) + i) (HttpGet ''u'') = Inr j
            \<and> (\<forall>i'<i. isl (net ?E (length (requests init_state) + i') (HttpGet ''u'')))
          \<longrightarrow> k = Suc i \<and> fst (get_with_retry ?E ''u'' 3 init_state) = j" by blast
  have "net ?E (length (requests init_state) + 1) (HttpGet ''u'') = Inr (JInt 7)
        \<and> (\<forall>i'<1. isl (net ?E (length (requests init_state) + i') (HttpGet ''u'')))"
    by (simp add: world_def scripted_def init_state_def)
  with k(2) have a: "k = Suc 1 \<and> fst (get_with_retry ?E ''u'' 3 init_state) = JInt 7"
    by (metis nat3 one_less_numeral_iff semiring_norm(77))
  from get_with_retry_bounded[OF n, of "world []" "''u''" init_state] obtain k' where k':
    "requests (snd (get_with_retry (world []) ''u'' 3 init_state))
       = requests init_state @ replicate k' (HttpGet ''u'')"
    "(\<forall>i<nat 3. isl (net (world []) (length (requests init_state) + i) (HttpGet ''u'')))
          \<longrightarrow> k' = nat 3 \<and> fst (get_with_retry (world []) ''u'' 3 init_state) = JNull" by blast
  have "\<forall>i<nat 3. isl (net (world []) (length (requests init_state) + i) (HttpGet ''u''))"
    by (simp add: world_def scripted_def)
  with k'(2) have b: "k' = 3 \<and> fst (get_with_retry (world []) ''u'' 3 init_state) = JNull" by simp
  have r3: "replicate 3 (HttpGet ''u'') = [HttpGet ''u'', HttpGet ''u'', HttpGet ''u'']"
    by (simp add: numeral_3_eq_3)
  show ?thesis using a b k(1) k'(1) r3 by (simp add: init_state_def)
qed

section \<open>The token cache\<close>

lemma now_fields [simp]:
  "requests (snd (now E s)) = requests s" "access_token (snd (now E s)) = access_token s"
  "token_expire (snd (now E s)) = token_expire s" "clock_reads (snd (now E s)) = Suc (clock_reads s)"
  "fst (now E s) = clock E (clock_reads s)" "cache (snd (now E s)) = cache s"
  "logged (snd (now E s)) = logged s"
  by (simp_all add: now_def)

lemma refresh_token_requests:
  "requests (snd (refresh_token E app sec s)) = requests s @ [HttpGet (token_url app sec)]"
  by (simp add: refresh_token_def http_get_def now_def write_log_def Let_def
      split: sum.splits bool.splits option.splits prod.splits)

lemma refresh_token_success:
  assumes "fst (refresh_token E app sec s) = Inr tok"
  shows "access_token (snd (refresh_token E app sec s)) = tok
     \<and> (\<exists>response expires_in x.
           net E (length (requests s)) (HttpGet (token_url app sec)) = Inr response
         \<and> subscript_key response ''access_token'' = Inr tok
         \<and> subscript_key response ''expires_in'' = Inr expires_in
         \<and> float_plus (Finite (snd (clock E (clock_reads s)))) expires_in = Inr x
         \<and> token_expire (snd (refresh_token E app sec s)) = float_sub x (Finite 300))"
  using assms
  by (auto simp add: refresh_token_def http_get_def now_def write_log_def Let_def
      split: sum.splits bool.splits option.splits prod.splits)

lemma refresh_token_failure:
  assumes "fst (refresh_token E app sec s) = Inl e"
  shows "token_expire (snd (refresh_token E app sec s)) = token_expire s
     \<and> (\<forall>response tok. net E (length (requests s)) (HttpGet (token_url app sec)) = Inr response
            \<and> py_in ''access_token'' response = Inr True
            \<and> subscript_key response ''access_token'' = Inr tok
          \<longrightarrow> access_token (snd (refresh_token E app sec s)) = tok)
     \<and> ((\<forall>response. net E (length (requests s)) (HttpGet (token_url app sec)) = Inr response
            \<longrightarrow> py_in ''access_token'' response \<noteq> Inr True
                \<or> isl (subscript_key response ''access_token''))
          \<longrightarrow> access_token (snd (refresh_token E app sec s)) = access_token s)"
  using assms
  by (auto simp add: refresh_token_def http_get_def now_def write_log_def Let_def
      split: sum.splits bool.splits option.splits prod.splits)

text \<open>
  Claim C5, amended. \<open>get_access_token\<close> reads the clock once and compares the reading with
  the stored expiry. When the reading is strictly before it, the stored token is returned,
  no request is issued and token and expiry stay as they are; otherwise exactly one
  request, the GET of the token endpoint, is issued. A refresh that returns has stored the
  response's token, and has stored as expiry the float sum of the clock reading taken after
  the response and the response's \<^verbatim>\<open>expires_in\<close>, minus 300, each operation rounded to
  binary64. A refresh that raises leaves the stored expiry as it was: it leaves the stored
  token too when the response is missing or carries no token, and it has already stored the
  response's token when line 120 raises (no \<^verbatim>\<open>expires_in\<close>, not a number, too large an
  integer).
\<close>

theorem get_access_token_cache:
  "(float_less (Finite (snd (clock E (clock_reads s)))) (token_expire s) \<longrightarrow>
      fst (get_access_token E app sec s) = Inr (access_token s)
    \<and> requests (snd (get_access_token E app sec s)) = requests s
    \<and> access_token (snd (get_access_token E app sec s)) = access_token s
    \<and> token_expire (snd (get_access_token E app sec s)) = token_expire s)
 \<and> (\<not> float_less (Finite (snd (clock E (clock_reads s)))) (token_expire s) \<longrightarrow>
      requests (snd (get_access_token E app sec s)) = requests s @ [HttpGet (token_url app sec)]
    \<and> (\<forall>tok. fst (get_access_token E app sec s) = Inr tok \<longrightarrow>
         access_token (snd (get_access_token E app sec s)) = tok
       \<and> (\<exists>response expires_in x.
             net E (length (requests s)) (HttpGet (token_url app sec)) = Inr response
           \<and> subscript_key response ''access_token'' = Inr tok
           \<and> subscript_key response ''expires_in'' = Inr expires_in
           \<and> float_plus (Finite (snd (clock E (Suc (clock_reads s))))) expires_in = Inr x
           \<and> token_expire (snd (get_access_token E app sec s)) = float_sub x (Finite 300)))
    \<and> (\<forall>e. fst (get_access_token E app sec s) = Inl e \<longrightarrow>
         token_expire (snd (get_access_token E app sec s)) = token_expire s
       \<and> (\<forall>response tok. net E (length (requests s)) (HttpGet (token_url app sec)) = Inr response
              \<and> py_in ''access_token'' response = Inr True
              \<and> subscript_key response ''access_token'' = Inr tok
            \<longrightarrow> access_token (snd (get_access_token E app sec s)) = tok)
       \<and> ((\<forall>response. net E (length (requests s)) (HttpGet (token_url app sec)) = Inr response
              \<longrightarrow> py_in ''access_token'' response \<noteq> Inr True
                  \<or> isl (subscript_key response ''access_token''))
            \<longrightarrow> access_token (snd (get_access_token E app sec s)) = access_token s)))"
proof (cases "float_less (Finite (snd (clock E (clock_reads s)))) (token_expire s)")
  case True
  then show ?thesis by (simp add: get_access_token_def now_def)
next
  case False
  then have g: "get_access_token E app sec s = refresh_token E app sec (snd (now E s))"
    by (simp add: get_access_token_def now_def)
  note rq = refresh_token_requests[of E app sec "snd (now E s)", simplified]
  note ok = refresh_token_success[of E app sec "snd (now E s)", simplified]
  note ko = refresh_token_failure[of E app sec "snd (now E s)", simplified]
  have 1: "requests (snd (get_access_token E app sec s)) = requests s @ [HttpGet (token_url app sec)]"
    unfolding g by (rule rq)
  have 2: "\<forall>tok. fst (get_access_token E app sec s) = Inr tok \<longrightarrow>
         access_token (snd (get_access_token E app sec s)) = tok
       \<and> (\<exists>response expires_in x.
             net E (length (requests s)) (HttpGet (token_url app sec)) = Inr response
           \<and> subscript_key response ''access_token'' = Inr tok
           \<and> subscript_key response ''expires_in'' = Inr expires_in
           \<and> float_plus (Finite (snd (clock E (Suc (clock_reads s))))) expires_in = Inr x
           \<and> token_expire (snd (get_access_token E app sec s)) = float_sub x (Finite 300))"
    unfolding g using ok by blast
  have 3: "\<forall>e. fst (get_access_token E app sec s) = Inl e \<longrightarrow>
         token_expire (snd (get_access_token E app sec s)) = token_expire s
       \<and> (\<forall>response tok. net E (length (requests s)) (HttpGet (token_url app sec)) = Inr response
              \<and> py_in ''access_token'' response = Inr True
              \<and> subscript_key response ''access_token'' = Inr tok
            \<longrightarrow> access_token (snd (get_access_token E app sec s)) = tok)
       \<and> ((\<forall>response. net E (length (requests s)) (HttpGet (token_url app sec)) = Inr response
              \<longrightarrow> py_in ''access_token'' response \<noteq> Inr True
                  \<or> isl (subscript_key response ''access_token''))
            \<longrightarrow> access_token (snd (get_access_token E app sec s)) = access_token s)"
    unfolding g using ko by blast
  show ?thesis using False 1 2 3 by blast
qed

lemma expiry_7200:
  "float_plus (Finite 1710000001) (JInt 7200) = Inr (Finite 1710007201)"
  "float_sub (Finite 1710007201) (Finite 300) = Finite 1710006901"
  by code_simp+

lemmas token_defs = world_def scripted_def init_state_def get_access_token_def
  refresh_token_def now_def http_get_def Let_def

theorem get_access_token_cache_witness:
  "fst (get_access_token (world [Inr token_reply]) ''id'' ''key'' init_state) = Inr (JStr ''T0'')
 \<and> requests (snd (get_access_token (world [Inr token_reply]) ''id'' ''key'' init_state))
      = [HttpGet (token_url ''id'' ''key'')]
 \<and> token_expire (snd (get_access_token (world [Inr token_reply]) ''id'' ''key'' init_state))
      = Finite 1710006901
 \<and> fst (get_access_token (world [Inr token_reply]) ''id'' ''key''
          (init_state\<lparr>access_token := JStr ''T0'', token_expire := Finite 1710006901\<rparr>))
      = Inr (JStr ''T0'')
 \<and> requests (snd (get_access_token (world [Inr token_reply]) ''id'' ''key''
          (init_state\<lparr>access_token := JStr ''T0'', token_expire := Finite 1710006901\<rparr>))) = []
 \<and> fst (get_access_token (world []) ''id'' ''key''
          (init_state\<lparr>access_token := JStr ''T0'', token_expire := Finite 100\<rparr>))
      = Inl RequestException
 \<and> access_token (snd (get_access_token (world []) ''id'' ''key''
          (init_state\<lparr>access_token := JStr ''T0'', token_expire := Finite 100\<rparr>))) = JStr ''T0''
 \<and> token_expire (snd (get_access_token (world []) ''id'' ''key''
          (init_state\<lparr>access_token := JStr ''T0'', token_expire := Finite 100\<rparr>))) = Finite 100"
proof -
  let ?W = "world [Inr token_reply]"
  let ?s = "init_state\<lparr>access_token := JStr ''T0'', token_expire := Finite 1710006901\<rparr>"
  let ?t = "init_state\<lparr>access_token := JStr ''T0'', token_expire := Finite 100\<rparr>"
  have a: "\<not> float_less (Finite (snd (clock ?W (clock_reads init_state)))) (token_expire init_state)"
    by (simp add: world_def init_state_def)
  have b: "fst (get_access_token ?W ''id'' ''key'' init_state) = Inr (JStr ''T0'')"
    by code_simp
  have n: "net ?W (length (requests init_state)) (HttpGet (token_url ''id'' ''key'')) = Inr token_reply"
    by (simp add: world_def scripted_def init_state_def)
  have c: "snd (clock ?W (Suc (clock_reads init_state))) = 1710000001"
    by (simp add: world_def init_state_def)
  from get_access_token_cache[of ?W init_state "''id''" "''key''"] a b
  obtain response expires_in x where r:
    "requests (snd (get_access_token ?W ''id'' ''key'' init_state))
       = requests init_state @ [HttpGet (token_url ''id'' ''key'')]"
    "net ?W (length (requests init_state)) (HttpGet (token_url ''id'' ''key'')) = Inr response"
    "subscript_key response ''expires_in'' = Inr expires_in"
    "float_plus (Finite (snd (clock ?W (Suc (clock_reads init_state))))) expires_in = Inr x"
    "token_expire (snd (get_access_token ?W ''id'' ''key'' init_state)) = float_sub x (Finite 300)"
    by blast
  have "response = token_reply" using r(2) n by simp
  then have ei: "expires_in = JInt 7200" using r(3) by (simp add: token_reply_def)
  have "x = Finite 1710007201" using r(4) unfolding c ei expiry_7200(1) by simp
  then have d: "token_expire (snd (get_access_token ?W ''id'' ''key'' init_state)) = Finite 1710006901"
    using r(5) by (simp add: expiry_7200)
  have e: "requests (snd (get_access_token ?W ''id'' ''key'' init_state)) = [HttpGet (token_url ''id'' ''key'')]"
    using r(1) by (simp add: init_state_def)
  have h: "float_less (Finite (snd (clock ?W (clock_reads ?s)))) (token_expire ?s)"
    by (simp add: world_def init_state_def)
  from get_access_token_cache[of ?W ?s "''id''" "''key''"] h
  have f: "fst (get_access_token ?W ''id'' ''key'' ?s) = Inr (JStr ''T0'')"
    "requests (snd (get_access_token ?W ''id'' ''key'' ?s)) = []"
    by (simp_all add: init_state_def)
  have i: "\<not> float_less (Finite (snd (clock (world []) (clock_reads ?t)))) (token_expire ?t)"
    by (simp add: world_def init_state_def)
  have j: "fst (get_access_token (world []) ''id'' ''key'' ?t) = Inl RequestException"
    by code_simp
  have k: "\<forall>response. net (world []) (length (requests ?t)) (HttpGet (token_url ''id'' ''key'')) = Inr response
              \<longrightarrow> py_in ''access_token'' response \<noteq> Inr True
                  \<or> isl (subscript_key response ''access_token'')"
    by (simp add: world_def scripted_def)
  from get_access_token_cache[of "world []" ?t "''id''" "''key''"] i j k
  have l: "access_token (snd (get_access_token (world []) ''id'' ''key'' ?t)) = access_token ?t"
    "token_expire (snd (get_access_token (world []) ''id'' ''key'' ?t)) = token_expire ?t"
    by blast+
  show ?thesis using b e d f j l by simp
qed

text \<open>
  The claim as stated fails in two ways. A response that carries a token and no
  \<^verbatim>\<open>expires_in\<close> makes line 120 raise after line 119 has stored the token: the new token
  is then cached under the expiry of the old one, with no margin of its own. And the
  stored expiry is a rounded float: with \<^verbatim>\<open>expires_in\<close> of \<open>2^60\<close> and the clock at
  1710000001 it is \<open>2^60 + 1709999872\<close>, not \<open>2^60 + 1710000001 - 300\<close>.
\<close>

theorem get_access_token_half_update_counterexample:
  "fst (get_access_token (world [Inr (JObj [(''access_token'', JStr ''T1'')])]) ''id'' ''key''
          (init_state\<lparr>access_token := JStr ''T0'', token_expire := Finite 100\<rparr>))
      = Inl (KeyError (JStr ''expires_in''))
 \<and> access_token (snd (get_access_token (world [Inr (JObj [(''access_token'', JStr ''T1'')])])
          ''id'' ''key'' (init_state\<lparr>access_token := JStr ''T0'', token_expire := Finite 100\<rparr>)))
      = JStr ''T1''
 \<and> token_expire (snd (get_access_token (world [Inr (JObj [(''access_token'', JStr ''T1'')])])
          ''id'' ''key'' (init_state\<lparr>access_token := JStr ''T0'', token_expire := Finite 100\<rparr>)))
      = Finite 100
 \<and> token_expire (snd (get_access_token
          (world [Inr (JObj [(''access_token'', JStr ''T1''), (''expires_in'', JInt (2 ^ 60))])])
          ''id'' ''key'' init_state))
      = Finite (2 ^ 60 + 1709999872)"
  by code_simp

section \<open>The outcome of one send\<close>

lemma send_template_message_unfold:
  assumes tok: "get_access_token E app sec s = (Inr token, s1)"
    and resp: "net E (length (requests s1)) (HttpPost (send_url (py_str E token)) td) = Inr result"
  shows "fst (send_template_message E app sec u td s) =
     (case py_get result ''errcode'' of Inl e \<Rightarrow> Inl e | Inr v \<Rightarrow> Inr (\<not> ne_zero v))"
  using assms by (simp add: send_template_message_def http_post_def split: sum.splits)

lemma ne_zero_iff: "\<not> ne_zero v \<longleftrightarrow> v = JInt 0 \<or> v = JBool False \<or> v = JFloat (Finite 0)"
  by (cases v) auto

text \<open>
  Claim C10, amended. When the token is obtained and the POST is answered by a decoded
  JSON value: a JSON object without the key \<^verbatim>\<open>errcode\<close> makes the send return False; the
  send returns True exactly when the answer is an object whose \<^verbatim>\<open>errcode\<close> compares equal
  to 0 in Python, which the integer 0 does and also \<^verbatim>\<open>false\<close> and the float zero; an answer
  that is not an object has no \<^verbatim>\<open>get\<close> method and the send raises AttributeError.
\<close>

theorem send_template_message_errcode:
  assumes tok: "get_access_token E app sec s = (Inr token, s1)"
    and resp: "net E (length (requests s1)) (HttpPost (send_url (py_str E token)) td) = Inr result"
  shows "(\<forall>kv. result = JObj kv \<and> map_of kv ''errcode'' = None \<longrightarrow>
            fst (send_template_message E app sec u td s) = Inr False)
       \<and> (fst (send_template_message E app sec u td s) = Inr True \<longleftrightarrow>
            (\<exists>kv v. result = JObj kv \<and> map_of kv ''errcode'' = Some v
                   \<and> (v = JInt 0 \<or> v = JBool False \<or> v = JFloat (Finite 0))))
       \<and> ((\<forall>kv. result \<noteq> JObj kv) \<longrightarrow>
            fst (send_template_message E app sec u td s) = Inl AttributeError)"
proof -
  note u = send_template_message_unfold[OF tok resp, of u]
  show ?thesis
  proof (cases result)
    case (JObj kv)
    show ?thesis
    proof (cases "map_of kv ''errcode''")
      case None
      then show ?thesis using u JObj by simp
    next
      case (Some v)
      then show ?thesis using u JObj ne_zero_iff[of v] by auto
    qed
  qed (simp_all add: u)
qed

lemma float_of_int_7200: "float_of_int 7200 = Inr (Finite 7200)"
  by code_simp

theorem send_template_message_errcode_witness:
  "fst (send_template_message (world [Inr token_reply, Inr (JObj [(''msgid'', JInt 5)])])
          ''id'' ''key'' ''u1'' sample_message init_state) = Inr False
 \<and> fst (send_template_message (world [Inr token_reply, Inr (JObj [(''errcode'', JInt 0)])])
          ''id'' ''key'' ''u1'' sample_message init_state) = Inr True
 \<and> fst (send_template_message (world [Inr token_reply, Inr (JList [])])
          ''id'' ''key'' ''u1'' sample_message init_state) = Inl AttributeError"
proof -
  let ?s1 = "snd (get_access_token (world [Inr token_reply]) ''id'' ''key'' init_state)"
  have tok: "\<And>r. get_access_token (world [Inr token_reply, Inr r]) ''id'' ''key'' init_state
      = (Inr (JStr ''T0''), snd (get_access_token (world [Inr token_reply, Inr r]) ''id'' ''key'' init_state))"
    by (simp add: world_def scripted_def init_state_def token_reply_def float_of_int_7200 get_access_token_def
      refresh_token_def now_def http_get_def Let_def)
  have rq: "\<And>r. length (requests (snd (get_access_token (world [Inr token_reply, Inr r]) ''id'' ''key'' init_state))) = 1"
    by (simp add: world_def scripted_def init_state_def token_reply_def float_of_int_7200 get_access_token_def
      refresh_token_def now_def http_get_def Let_def)
  have resp: "\<And>r. net (world [Inr token_reply, Inr r])
      (length (requests (snd (get_access_token (world [Inr token_reply, Inr r]) ''id'' ''key'' init_state))))
      (HttpPost (send_url (py_str (world [Inr token_reply, Inr r]) (JStr ''T0''))) sample_message) = Inr r"
    unfolding rq by (simp add: world_def scripted_def)
  show ?thesis
    using send_template_message_errcode[OF tok resp, of "JObj [(''msgid'', JInt 5)]" "''u1''"]
      send_template_message_errcode[OF tok resp, of "JObj [(''errcode'', JInt 0)]" "''u1''"]
      send_template_message_errcode[OF tok resp, of "JList []" "''u1''"]
    by simp
qed

text \<open>
  The claim as stated, that True is returned only for the integer 0, fails for the
  answer \<^verbatim>\<open>{"errcode": false}\<close>.
\<close>

theorem send_template_message_false_counterexample:
  "fst (send_template_message (world [Inr token_reply, Inr (JObj [(''errcode'', JBool False)])])
          ''id'' ''key'' ''u1'' sample_message init_state) = Inr True"
  by (simp add: send_template_message_def http_post_def py_str_def world_def scripted_def
      init_state_def token_reply_def float_of_int_7200 get_access_token_def refresh_token_def now_def http_get_def Let_def)

section \<open>Weather lookup\<close>

lemma retry_loop_cache [simp]: "cache (snd (retry_loop E u n s)) = cache s"
  by (induction n arbitrary: s) (auto simp: http_get_def write_log_def split: sum.splits)

lemma get_with_retry_cache [simp]: "cache (snd (get_with_retry E u n s)) = cache s"
  by (simp add: get_with_retry_def)

lemma get_weather_cached: "cache s r = Some v \<Longrightarrow> get_weather E key r s = (Inr v, s)"
  by (simp add: get_weather_def)

lemma get_weather_miss:
  assumes "cache s r = None"
  shows "get_weather E key r s =
     (let ld = fst (get_with_retry E (location_url r key) 3 s);
          s1 = snd (get_with_retry E (location_url r key) 3 s)
      in case rejected ld of
           Inl e \<Rightarrow> (Inl e, s1)
         | Inr True \<Rightarrow> (Inl (ValueError RegionLookup), s1)
         | Inr False \<Rightarrow>
            (case location_id_of ld of
               Inl e \<Rightarrow> (Inl e, s1)
             | Inr lid \<Rightarrow>
                (let wd = fst (get_with_retry E (weather_url (py_str E lid) key) 3 s1);
                     s2 = snd (get_with_retry E (weather_url (py_str E lid) key) 3 s1)
                 in case rejected wd of
                      Inl e \<Rightarrow> (Inl e, s2)
                    | Inr True \<Rightarrow> (Inl (ValueError WeatherLookup), s2)
                    | Inr False \<Rightarrow>
                       (case weather_result E wd of
                          Inl e \<Rightarrow> (Inl e, s2)
                        | Inr result \<Rightarrow> (Inr result, s2\<lparr>cache := (cache s2)(r \<mapsto> result)\<rparr>)))))"
  using assms by (simp add: get_weather_def Let_def case_prod_beta split: sum.splits bool.splits)

lemma get_weather_cache_kept:
  "cache s r' = Some w \<Longrightarrow> cache (snd (get_weather E key r s)) r' = Some w"
proof (cases "cache s r")
  case (Some v)
  assume "cache s r' = Some w"
  then show ?thesis using Some by (simp add: get_weather_cached)
next
  case None
  assume w: "cache s r' = Some w"
  with None have "r' \<noteq> r" by auto
  then show ?thesis using w
    by (simp add: get_weather_miss[OF None] Let_def split: sum.splits bool.splits)
qed

lemma get_weather_failure_cache:
  "isl (fst (get_weather E key r s)) \<Longrightarrow> cache (snd (get_weather E key r s)) = cache s"
  by (cases "cache s r")
     (auto simp add: get_weather_miss get_weather_cached Let_def split: sum.splits bool.splits)

text \<open>
  Claim C3, amended. For a region that is not cached, let the geocoding response be what
  \<open>get_with_retry\<close> returns for the geocoding URL. When it is missing (\<^verbatim>\<open>None\<close>, or any
  other value Python treats as false) or is an object whose \<^verbatim>\<open>code\<close> is present and is not
  the string \<^verbatim>\<open>'200'\<close>, \<open>get_weather\<close> raises the region-lookup ValueError. When it is a
  non-empty object without \<^verbatim>\<open>code\<close> the subscript of line 61 raises KeyError, and when
  \<^verbatim>\<open>code\<close> is \<^verbatim>\<open>'200'\<close> and the location list is empty the subscript of line 64 raises
  IndexError. Whenever \<open>get_weather\<close> raises, the cache is left as it was.
\<close>

theorem get_weather_region_failure:
  assumes "cache s r = None"
  shows "(\<not> truthy (fst (get_with_retry E (location_url r key) 3 s)) \<longrightarrow>
            fst (get_weather E key r s) = Inl (ValueError RegionLookup))
       \<and> (\<forall>kv c. fst (get_with_retry E (location_url r key) 3 s) = JObj kv
              \<and> map_of kv ''code'' = Some c \<and> c \<noteq> JStr ''200'' \<longrightarrow>
            fst (get_weather E key r s) = Inl (ValueError RegionLookup))
       \<and> (\<forall>kv. fst (get_with_retry E (location_url r key) 3 s) = JObj kv \<and> kv \<noteq> []
              \<and> map_of kv ''code'' = None \<longrightarrow>
            fst (get_weather E key r s) = Inl (KeyError (JStr ''code'')))
       \<and> (\<forall>kv. fst (get_with_retry E (location_url r key) 3 s) = JObj kv
              \<and> map_of kv ''code'' = Some (JStr ''200'') \<and> map_of kv ''location'' = Some (JList []) \<longrightarrow>
            fst (get_weather E key r s) = Inl IndexError)
       \<and> (isl (fst (get_weather E key r s)) \<longrightarrow> cache (snd (get_weather E key r s)) = cache s)"
proof -
  have a: "\<not> truthy (fst (get_with_retry E (location_url r key) 3 s)) \<longrightarrow>
            fst (get_weather E key r s) = Inl (ValueError RegionLookup)"
    by (simp add: get_weather_miss[OF assms] Let_def rejected_def)
  have b: "\<forall>kv c. fst (get_with_retry E (location_url r key) 3 s) = JObj kv
              \<and> map_of kv ''code'' = Some c \<and> c \<noteq> JStr ''200'' \<longrightarrow>
            fst (get_weather E key r s) = Inl (ValueError RegionLookup)"
    by (auto simp add: get_weather_miss[OF assms] Let_def rejected_def)
  have c: "\<forall>kv. fst (get_with_retry E (location_url r key) 3 s) = JObj kv \<and> kv \<noteq> []
              \<and> map_of kv ''code'' = None \<longrightarrow>
            fst (get_weather E key r s) = Inl (KeyError (JStr ''code''))"
    by (auto simp add: get_weather_miss[OF assms] Let_def rejected_def)
  have d: "\<forall>kv. fst (get_with_retry E (location_url r key) 3 s) = JObj kv
              \<and> map_of kv ''code'' = Some (JStr ''200'') \<and> map_of kv ''location'' = Some (JList []) \<longrightarrow>
            fst (get_weather E key r s) = Inl IndexError"
    by (auto simp add: get_weather_miss[OF assms] Let_def rejected_def location_id_of_def)
  show ?thesis using a b c d get_weather_failure_cache[of E key r s] by blast
qed

theorem get_weather_region_failure_witness:
  "cache init_state ''Beijing'' = None
 \<and> fst (get_weather (world []) ''k'' ''Beijing'' init_state) = Inl (ValueError RegionLookup)
 \<and> fst (get_weather (world [Inr (JObj [(''code'', JStr ''404'')])]) ''k'' ''Beijing'' init_state)
      = Inl (ValueError RegionLookup)
 \<and> cache (snd (get_weather (world []) ''k'' ''Beijing'' init_state)) ''Beijing'' = None"
proof -
  have c: "cache init_state ''Beijing'' = None" by (simp add: init_state_def)
  have 1: "fst (get_with_retry (world []) (location_url ''Beijing'' ''k'') 3 init_state) = JNull"
    by (simp add: get_with_retry_def numeral_3_eq_3 http_get_def world_def scripted_def)
  have 2: "fst (get_with_retry (world [Inr (JObj [(''code'', JStr ''404'')])])
              (location_url ''Beijing'' ''k'') 3 init_state) = JObj [(''code'', JStr ''404'')]"
    by (simp add: get_with_retry_def numeral_3_eq_3 http_get_def world_def scripted_def init_state_def)
  show ?thesis
    using get_weather_region_failure[OF c, of "world []" "''k''"]
      get_weather_region_failure[OF c, of "world [Inr (JObj [(''code'', JStr ''404'')])]" "''k''"]
      c 1 2
    by simp
qed

text \<open>
  The claim as stated, that the failure is the region-lookup error and no other kind of
  exception, fails for a response without \<^verbatim>\<open>code\<close> and for an empty location list.
\<close>

theorem get_weather_keyerror_counterexample:
  "fst (get_weather (world [Inr (JObj [(''status'', JStr ''ok'')])]) ''k'' ''Beijing'' init_state)
     = Inl (KeyError (JStr ''code''))
 \<and> fst (get_weather (world [Inr (JObj [(''code'', JStr ''200''), (''location'', JList [])])])
          ''k'' ''Beijing'' init_state) = Inl IndexError"
  by (simp add: get_weather_def get_with_retry_def numeral_3_eq_3 http_get_def world_def
      scripted_def init_state_def rejected_def location_id_of_def Let_def)

section \<open>The weather cache and the number of requests\<close>

lemma get_with_retry_three:
  "\<exists>k. 1 \<le> k \<and> k \<le> 3
     \<and> requests (snd (get_with_retry E u 3 s)) = requests s @ replicate k (HttpGet u)
     \<and> (\<not> isl (net E (length (requests s)) (HttpGet u)) \<longrightarrow> k = 1)"
proof -
  have n: "(0::int) < 3" by simp
  from get_with_retry_spec[OF n, of E u s] obtain k where k: "1 \<le> k" "k \<le> nat 3"
    "requests (snd (get_with_retry E u 3 s)) = requests s @ replicate k (HttpGet u)"
    "\<forall>i<nat 3. \<forall>j. net E (length (requests s) + i) (HttpGet u) = Inr j
            \<and> (\<forall>i'<i. isl (net E (length (requests s) + i') (HttpGet u)))
          \<longrightarrow> k = Suc i \<and> fst (get_with_retry E u 3 s) = j" by blast
  have "\<not> isl (net E (length (requests s)) (HttpGet u)) \<longrightarrow> k = 1"
  proof
    assume "\<not> isl (net E (length (requests s)) (HttpGet u))"
    then obtain j where "net E (length (requests s) + 0) (HttpGet u) = Inr j"
      by (cases "net E (length (requests s)) (HttpGet u)") auto
    moreover have "(0::nat) < nat 3" by simp
    ultimately have "k = Suc 0" using k(4) by blast
    then show "k = 1" by simp
  qed
  with k(1,2,3) show ?thesis by auto
qed

lemma get_weather_success:
  assumes miss: "cache s r = None" and ok: "fst (get_weather E key r s) = Inr v"
  shows "\<exists>k1 k2 lid. 1 \<le> k1 \<and> k1 \<le> 3 \<and> 1 \<le> k2 \<and> k2 \<le> 3
        \<and> requests (snd (get_weather E key r s))
            = requests s @ replicate k1 (HttpGet (location_url r key))
                @ replicate k2 (HttpGet (weather_url lid key))
        \<and> (\<not> isl (net E (length (requests s)) (HttpGet (location_url r key))) \<longrightarrow> k1 = 1)
        \<and> (\<not> isl (net E (length (requests s) + k1) (HttpGet (weather_url lid key))) \<longrightarrow> k2 = 1)
        \<and> cache (snd (get_weather E key r s)) = (cache s)(r \<mapsto> v)"
proof -
  define ld where "ld = fst (get_with_retry E (location_url r key) 3 s)"
  define s1 where "s1 = snd (get_with_retry E (location_url r key) 3 s)"
  from ok obtain j where lid: "location_id_of ld = Inr j"
    by (auto simp add: get_weather_miss[OF miss] Let_def ld_def split: sum.splits bool.splits)
  define lid where "lid = py_str E j"
  define wd where "wd = fst (get_with_retry E (weather_url lid key) 3 s1)"
  define s2 where "s2 = snd (get_with_retry E (weather_url lid key) 3 s1)"
  from ok lid have res: "snd (get_weather E key r s) = s2\<lparr>cache := (cache s2)(r \<mapsto> v)\<rparr>"
    by (auto simp add: get_weather_miss[OF miss] Let_def ld_def s1_def s2_def lid_def
        split: sum.splits bool.splits)
  from get_with_retry_three[of E "location_url r key" s] obtain k1 where k1:
    "1 \<le> k1" "k1 \<le> 3" "requests s1 = requests s @ replicate k1 (HttpGet (location_url r key))"
    "\<not> isl (net E (length (requests s)) (HttpGet (location_url r key))) \<longrightarrow> k1 = 1"
    unfolding s1_def by blast
  from get_with_retry_three[of E "weather_url lid key" s1] obtain k2 where k2:
    "1 \<le> k2" "k2 \<le> 3" "requests s2 = requests s1 @ replicate k2 (HttpGet (weather_url lid key))"
    "\<not> isl (net E (length (requests s1)) (HttpGet (weather_url lid key))) \<longrightarrow> k2 = 1"
    unfolding s2_def by blast
  have len: "length (requests s1) = length (requests s) + k1" using k1(3) by simp
  have c: "cache s2 = cache s" by (simp add: s2_def s1_def)
  have rq: "requests (snd (get_weather E key r s))
            = requests s @ replicate k1 (HttpGet (location_url r key))
                @ replicate k2 (HttpGet (weather_url lid key))"
    using res k1(3) k2(3) by simp
  have cc: "cache (snd (get_weather E key r s)) = (cache s)(r \<mapsto> v)"
    using res c by simp
  show ?thesis
    using k1(1,2,4) k2(1,2) k2(4)[unfolded len] rq cc by blast
qed

lemmas run_defs = get_weather_def get_with_retry_def numeral_3_eq_3 http_get_def world_def
  scripted_def init_state_def rejected_def location_id_of_def weather_result_def now_field_def
  py_str_def write_log_def Let_def geo_reply_def weather_reply_def sunny_def

text \<open>
  Claim C4, amended. For a region already in the cache, \<open>get_weather\<close> returns the cached
  snapshot and leaves the whole state, the request log included, as it was: no request is
  issued. For a region not in the cache, a successful \<open>get_weather\<close> has issued between one
  and three GETs of the geocoding URL followed by between one and three GETs of one
  current-weather URL, and nothing else: two requests exactly when the first attempt of
  each lookup does not raise, up to six otherwise; it has then stored the snapshot under
  the region. Whatever the outcome, every entry the cache held before the call is still
  there with the same snapshot.
\<close>

theorem get_weather_calls:
  "(\<forall>v. cache s r = Some v \<longrightarrow> get_weather E key r s = (Inr v, s))
 \<and> (\<forall>v. cache s r = None \<and> fst (get_weather E key r s) = Inr v \<longrightarrow>
      (\<exists>k1 k2 lid. 1 \<le> k1 \<and> k1 \<le> 3 \<and> 1 \<le> k2 \<and> k2 \<le> 3
        \<and> requests (snd (get_weather E key r s))
            = requests s @ replicate k1 (HttpGet (location_url r key))
                @ replicate k2 (HttpGet (weather_url lid key))
        \<and> (\<not> isl (net E (length (requests s)) (HttpGet (location_url r key))) \<longrightarrow> k1 = 1)
        \<and> (\<not> isl (net E (length (requests s) + k1) (HttpGet (weather_url lid key))) \<longrightarrow> k2 = 1)
        \<and> cache (snd (get_weather E key r s)) = (cache s)(r \<mapsto> v)))
 \<and> (\<forall>r' w. cache s r' = Some w \<longrightarrow> cache (snd (get_weather E key r s)) r' = Some w)"
  using get_weather_cached[of s r _ E key] get_weather_success[of s r E key]
    get_weather_cache_kept[of s _ _ E key r]
  by blast

theorem get_weather_calls_witness:
  "get_weather (world []) ''k'' ''Beijing'' (init_state\<lparr>cache := [''Beijing'' \<mapsto> sunny]\<rparr>)
     = (Inr sunny, init_state\<lparr>cache := [''Beijing'' \<mapsto> sunny]\<rparr>)
 \<and> cache init_state ''Beijing'' = None
 \<and> fst (get_weather (world [Inr geo_reply, Inr weather_reply]) ''k'' ''Beijing'' init_state) = Inr sunny
 \<and> length (requests (snd (get_weather (world [Inr geo_reply, Inr weather_reply]) ''k'' ''Beijing''
       init_state))) = 2
 \<and> cache (snd (get_weather (world [Inr geo_reply, Inr weather_reply]) ''k'' ''Beijing'' init_state))
       ''Beijing'' = Some sunny
 \<and> cache (snd (get_weather (world [Inr geo_reply, Inr weather_reply]) ''k'' ''Shanghai''
       (init_state\<lparr>cache := [''Beijing'' \<mapsto> sunny]\<rparr>))) ''Beijing'' = Some sunny"
proof -
  let ?W = "world [Inr geo_reply, Inr weather_reply]"
  let ?s = "init_state\<lparr>cache := [''Beijing'' \<mapsto> sunny]\<rparr>"
  have hit: "cache ?s ''Beijing'' = Some sunny" by simp
  have miss: "cache init_state ''Beijing'' = None" by (simp add: init_state_def)
  have ok: "fst (get_weather ?W ''k'' ''Beijing'' init_state) = Inr sunny"
    by (simp add: run_defs)
  have first: "\<not> isl (net ?W (length (requests init_state)) (HttpGet (location_url ''Beijing'' ''k'')))"
    by (simp add: world_def scripted_def init_state_def)
  have second: "\<And>u. \<not> isl (net ?W (length (requests init_state) + 1) (HttpGet u))"
    by (simp add: world_def scripted_def init_state_def)
  from get_weather_calls[of ?s "''Beijing''" "world []" "''k''"] hit
  have a: "get_weather (world []) ''k'' ''Beijing'' ?s = (Inr sunny, ?s)" by blast
  from get_weather_calls[of init_state "''Beijing''" ?W "''k''"] miss ok
  obtain k1 k2 lid where k:
    "requests (snd (get_weather ?W ''k'' ''Beijing'' init_state))
       = requests init_state @ replicate k1 (HttpGet (location_url ''Beijing'' ''k''))
           @ replicate k2 (HttpGet (weather_url lid ''k''))"
    "\<not> isl (net ?W (length (requests init_state)) (HttpGet (location_url ''Beijing'' ''k''))) \<longrightarrow> k1 = 1"
    "\<not> isl (net ?W (length (requests init_state) + k1) (HttpGet (weather_url lid ''k''))) \<longrightarrow> k2 = 1"
    "cache (snd (get_weather ?W ''k'' ''Beijing'' init_state)) = (cache init_state)(''Beijing'' \<mapsto> sunny)"
    by blast
  have k1: "k1 = 1" using k(2) first by blast
  have k2: "k2 = 1" using k(3) second[of "weather_url lid ''k''"] unfolding k1 by blast
  have b: "length (requests (snd (get_weather ?W ''k'' ''Beijing'' init_state))) = 2"
    using k(1) k1 k2 by (simp add: init_state_def)
  have c: "cache (snd (get_weather ?W ''k'' ''Beijing'' init_state)) ''Beijing'' = Some sunny"
    using k(4) by simp
  from get_weather_calls[of ?s "''Shanghai''" ?W "''k''"] hit
  have d: "cache (snd (get_weather ?W ''k'' ''Shanghai'' ?s)) ''Beijing'' = Some sunny" by blast
  show ?thesis using a miss ok b c d by blast
qed

text \<open>
  The claim as stated, exactly two network calls for a region queried for the first time,
  fails when an attempt is retried: here the first geocoding attempt raises and the lookup
  succeeds with three requests.
\<close>

theorem get_weather_three_calls_counterexample:
  "cache init_state ''Beijing'' = None
 \<and> fst (get_weather (world [Inl RequestException, Inr geo_reply, Inr weather_reply])
          ''k'' ''Beijing'' init_state) = Inr sunny
 \<and> requests (snd (get_weather (world [Inl RequestException, Inr geo_reply, Inr weather_reply])
          ''k'' ''Beijing'' init_state))
      = [HttpGet (location_url ''Beijing'' ''k''), HttpGet (location_url ''Beijing'' ''k''),
         HttpGet (weather_url ''101010100'' ''k'')]"
  by (simp add: run_defs)

section \<open>Calendar arithmetic and the next birthday\<close>

lemma div_step:
  assumes "0 < k"
  shows "(y::int) div k = (y - 1) div k + (if y mod k = 0 then 1 else 0)"
proof (cases "y mod k = 0")
  case True
  have "k * (y div k) + y mod k = y" by (rule mult_div_mod_eq)
  then have "y = k * (y div k)" using True by simp
  then have "y - 1 = k * (y div k - 1) + (k - 1)" by (simp add: algebra_simps)
  then have "(y - 1) div k = y div k - 1"
    using assms by (intro int_div_pos_eq[where r = "k - 1"]) simp_all
  then show ?thesis using True by simp
next
  case False
  have "0 \<le> y mod k" "y mod k < k" using assms by simp_all
  then have r: "0 \<le> y mod k - 1" "y mod k - 1 < k" using False by simp_all
  have "k * (y div k) + y mod k = y" by (rule mult_div_mod_eq)
  then have "y - 1 = k * (y div k) + (y mod k - 1)" by simp
  then have "(y - 1) div k = y div k"
    using r by (intro int_div_pos_eq[where r = "y mod k - 1"]) simp_all
  then show ?thesis using False by simp
qed

lemma div_step_zero: "0 < k \<Longrightarrow> y mod k = 0 \<Longrightarrow> (y::int) div k = (y - 1) div k + 1"
  using div_step[of k y] by simp

lemma div_step_nonzero: "0 < k \<Longrightarrow> y mod k \<noteq> 0 \<Longrightarrow> (y::int) div k = (y - 1) div k"
  using div_step[of k y] by simp

lemma leap_mods:
  "(y::int) mod 400 = 0 \<Longrightarrow> y mod 100 = 0" "(y::int) mod 100 = 0 \<Longrightarrow> y mod 4 = 0"
  using mod_mod_cancel[of 100 400 y] mod_mod_cancel[of 4 100 y] by simp_all


lemma days_before_year_step:
  "days_before_year (y + 1) = days_before_year y + (if is_leap y then 366 else 365)"
proof -
  have a: "y div 4 = (y - 1) div 4 + (if y mod 4 = 0 then 1 else 0)" by (rule div_step) simp
  have b: "y div 100 = (y - 1) div 100 + (if y mod 100 = 0 then 1 else 0)" by (rule div_step) simp
  have c: "y div 400 = (y - 1) div 400 + (if y mod 400 = 0 then 1 else 0)" by (rule div_step) simp
  have e: "days_before_year (y + 1) = y * 365 + y div 4 - y div 100 + y div 400"
    by (simp add: days_before_year_def)
  have f: "days_before_year y = (y - 1) * 365 + (y - 1) div 4 - (y - 1) div 100 + (y - 1) div 400"
    by (simp add: days_before_year_def)
  have g: "(y - 1) * 365 = y * 365 - 365" by (simp add: algebra_simps)
  consider (n4) "y mod 4 \<noteq> 0" | (n100) "y mod 4 = 0" "y mod 100 \<noteq> 0"
    | (n400) "y mod 100 = 0" "y mod 400 \<noteq> 0" | (y400) "y mod 400 = 0" by argo
  then show ?thesis
  proof cases
    case n4
    then have m: "y mod 100 \<noteq> 0" "y mod 400 \<noteq> 0" using leap_mods[of y] by argo+
    have l: "\<not> is_leap y" using n4 by (simp add: is_leap_def)
    have a': "y div 4 = (y - 1) div 4" using n4 by (intro div_step_nonzero) simp_all
    have b': "y div 100 = (y - 1) div 100" using m(1) by (intro div_step_nonzero) simp_all
    have c': "y div 400 = (y - 1) div 400" using m(2) by (intro div_step_nonzero) simp_all
    have "days_before_year (y + 1) = days_before_year y + 365"
      unfolding e f g a' b' c' by linarith
    then show ?thesis using l by (simp only: if_False)
  next
    case n100
    then have m: "y mod 400 \<noteq> 0" using leap_mods[of y] by argo
    have l: "is_leap y" using n100 by (simp add: is_leap_def)
    have a': "y div 4 = (y - 1) div 4 + 1" using n100(1) by (intro div_step_zero) simp_all
    have b': "y div 100 = (y - 1) div 100" using n100(2) by (intro div_step_nonzero) simp_all
    have c': "y div 400 = (y - 1) div 400" using m by (intro div_step_nonzero) simp_all
    have "days_before_year (y + 1) = days_before_year y + 366"
      unfolding e f g a' b' c' by linarith
    then show ?thesis using l by (simp only: if_True)
  next
    case n400
    then have m: "y mod 4 = 0" using leap_mods[of y] by argo
    have l: "\<not> is_leap y" using n400 by (simp add: is_leap_def)
    have a': "y div 4 = (y - 1) div 4 + 1" using m by (intro div_step_zero) simp_all
    have b': "y div 100 = (y - 1) div 100 + 1" using n400(1) by (intro div_step_zero) simp_all
    have c': "y div 400 = (y - 1) div 400" using n400(2) by (intro div_step_nonzero) simp_all
    have "days_before_year (y + 1) = days_before_year y + 365"
      unfolding e f g a' b' c' by linarith
    then show ?thesis using l by (simp only: if_False)
  next
    case y400
    then have m: "y mod 100 = 0" "y mod 4 = 0" using leap_mods[of y] by argo+
    have l: "is_leap y" using y400 m by (simp add: is_leap_def)
    have a': "y div 4 = (y - 1) div 4 + 1" using m(2) by (intro div_step_zero) simp_all
    have b': "y div 100 = (y - 1) div 100 + 1" using m(1) by (intro div_step_zero) simp_all
    have c': "y div 400 = (y - 1) div 400 + 1" using y400 by (intro div_step_zero) simp_all
    have "days_before_year (y + 1) = days_before_year y + 366"
      unfolding e f g a' b' c' by linarith
    then show ?thesis using l by (simp only: if_True)
  qed
qed

lemma days_in_month_pos: "28 \<le> days_in_month y m"
  by (simp add: days_in_month_def)

lemma days_before_month_step:
  "1 \<le> m \<Longrightarrow> days_before_month y (m + 1) = days_before_month y m + days_in_month y m"
proof -
  assume m: "1 \<le> m"
  then have "nat (m + 1) = Suc (nat m)" by simp
  moreover have "1 \<le> nat m" using m by simp
  ultimately have "[1 ..< nat (m + 1)] = [1 ..< nat m] @ [nat m]" by simp
  then show ?thesis using m by (simp add: days_before_month_def)
qed

lemma days_before_month_mono_nat:
  "1 \<le> m \<Longrightarrow> days_before_month y m \<le> days_before_month y (m + int k)"
proof (induction k)
  case 0
  then show ?case by simp
next
  case (Suc k)
  have e: "m + int (Suc k) = (m + int k) + 1" by simp
  have "days_before_month y (m + int (Suc k))
          = days_before_month y (m + int k) + days_in_month y (m + int k)"
    unfolding e using Suc.prems by (intro days_before_month_step) simp
  then show ?case using Suc days_in_month_pos[of y "m + int k"] by linarith
qed

lemma days_before_month_mono:
  assumes "1 \<le> m" "m \<le> m'"
  shows "days_before_month y m \<le> days_before_month y m'"
proof -
  have "m' = m + int (nat (m' - m))" using assms by simp
  then show ?thesis using days_before_month_mono_nat[OF assms(1), of y "nat (m' - m)"] by simp
qed

lemma days_before_month_one: "days_before_month y 1 = 0"
  by (simp add: days_before_month_def)

lemma days_before_month_nonneg: "1 \<le> m \<Longrightarrow> 0 \<le> days_before_month y m"
  using days_before_month_mono[of 1 m y] by (simp add: days_before_month_one)

lemma days_before_month_13: "days_before_month y 13 = (if is_leap y then 366 else 365)"
  using days_before_month_step[of 1 y] days_before_month_step[of 2 y] days_before_month_step[of 3 y]
    days_before_month_step[of 4 y] days_before_month_step[of 5 y] days_before_month_step[of 6 y]
    days_before_month_step[of 7 y] days_before_month_step[of 8 y] days_before_month_step[of 9 y]
    days_before_month_step[of 10 y] days_before_month_step[of 11 y] days_before_month_step[of 12 y]
  by (simp add: days_before_month_one days_in_month_def)

lemma days_before_year_mono_nat: "days_before_year y \<le> days_before_year (y + int k)"
proof (induction k)
  case 0
  show ?case by simp
next
  case (Suc k)
  have e: "y + int (Suc k) = (y + int k) + 1" by simp
  have "days_before_year (y + int k) \<le> days_before_year (y + int (Suc k))"
    unfolding e days_before_year_step by simp
  then show ?case using Suc by linarith
qed

lemma days_before_year_mono: "y \<le> y' \<Longrightarrow> days_before_year y \<le> days_before_year y'"
  using days_before_year_mono_nat[of y "nat (y' - y)"] by simp

lemma within_year:
  assumes "valid_date d"
  shows "days_before_year (year d) < toordinal d" "toordinal d \<le> days_before_year (year d + 1)"
proof -
  have m: "1 \<le> month d" "month d \<le> 12" "1 \<le> day d" "day d \<le> days_in_month (year d) (month d)"
    using assms by (simp_all add: valid_date_def)
  show "days_before_year (year d) < toordinal d"
    using days_before_month_nonneg[OF m(1), of "year d"] m(3) by (simp add: toordinal_def)
  have "days_before_month (year d) (month d) + day d \<le> days_before_month (year d) (month d + 1)"
    using m by (simp add: days_before_month_step)
  also have "\<dots> \<le> days_before_month (year d) 13"
    using m by (intro days_before_month_mono) simp_all
  finally show "toordinal d \<le> days_before_year (year d + 1)"
    by (simp add: toordinal_def days_before_year_step days_before_month_13)
qed

lemma toordinal_mono:
  assumes "valid_date a" "valid_date b" "date_less a b"
  shows "toordinal a < toordinal b"
proof (cases "year a < year b")
  case True
  have "toordinal a \<le> days_before_year (year a + 1)" using within_year(2)[OF assms(1)] .
  also have "\<dots> \<le> days_before_year (year b)" using True by (intro days_before_year_mono) simp
  also have "\<dots> < toordinal b" using within_year(1)[OF assms(2)] .
  finally show ?thesis .
next
  case False
  then have y: "year a = year b" using assms(3) by (auto simp: date_less_def)
  have ma: "1 \<le> month a" "day a \<le> days_in_month (year a) (month a)" and db: "1 \<le> day b"
    using assms by (simp_all add: valid_date_def)
  show ?thesis
  proof (cases "month a < month b")
    case True
    have "days_before_month (year a) (month a) + day a \<le> days_before_month (year a) (month a + 1)"
      using ma by (simp add: days_before_month_step)
    also have "\<dots> \<le> days_before_month (year a) (month b)"
      using True ma by (intro days_before_month_mono) simp_all
    finally show ?thesis using db y by (simp add: toordinal_def)
  next
    case False
    then have "month a = month b" "day a < day b" using assms(3) y by (auto simp: date_less_def)
    then show ?thesis using y by (simp add: toordinal_def)
  qed
qed

lemma date_order_cases: "date_less a b \<or> date_less b a \<or> a = b" for a b :: pydate
  by (cases a; cases b) (auto simp: date_less_def)

lemma toordinal_le:
  assumes "valid_date a" "valid_date b" "\<not> date_less b a"
  shows "toordinal a \<le> toordinal b"
  using date_order_cases[of a b] toordinal_mono[OF assms(1,2)] assms(3) by auto

lemma replace_year_eq:
  assumes "valid_date d"
  shows "replace_year d y =
     (if 1 \<le> y \<and> y \<le> 9999 \<and> day d \<le> days_in_month y (month d)
      then Inr (d\<lparr>year := y\<rparr>) else Inl (ValueError DateRange))"
  using assms by (cases d) (auto simp add: replace_year_def mk_date_def valid_date_def)

lemma replace_year_valid:
  assumes "valid_date d" "1 \<le> y" "y \<le> 9999" "day d \<le> days_in_month y (month d)"
  shows "valid_date (d\<lparr>year := y\<rparr>)"
  using assms by (simp add: valid_date_def)

lemma not_leap_day: "valid_date d \<Longrightarrow> \<not> (month d = 2 \<and> day d = 29) \<Longrightarrow> day d \<le> days_in_month y (month d)"
  by (auto simp: valid_date_def days_in_month_def split: if_splits)

lemma next_birthday_eq:
  assumes b: "valid_date birth_date" and t: "valid_date today"
  shows "next_birthday birth_date today =
     (if day birth_date \<le> days_in_month (year today) (month birth_date)
      then (if date_less (birth_date\<lparr>year := year today\<rparr>) today
            then (if year today < 9999
                     \<and> day birth_date \<le> days_in_month (year today + 1) (month birth_date)
                  then Inr (birth_date\<lparr>year := year today + 1\<rparr>)
                  else Inl (ValueError DateRange))
            else Inr (birth_date\<lparr>year := year today\<rparr>))
      else Inl (ValueError DateRange))"
proof -
  have ty: "1 \<le> year today" "year today \<le> 9999" using t by (simp_all add: valid_date_def)
  show ?thesis
  proof (cases "day birth_date \<le> days_in_month (year today) (month birth_date)")
    case False
    then show ?thesis using ty by (simp add: next_birthday_def replace_year_eq[OF b])
  next
    case True
    have v: "valid_date (birth_date\<lparr>year := year today\<rparr>)"
      using replace_year_valid[OF b ty True] .
    show ?thesis using True ty
      by (auto simp add: next_birthday_def replace_year_eq[OF b] replace_year_eq[OF v])
  qed
qed

lemma next_birthday_not_before:
  assumes b: "valid_date birth_date" and t: "valid_date today"
    and r: "next_birthday birth_date today = Inr nb"
  shows "\<not> date_less nb today \<and> 0 \<le> toordinal nb - toordinal today
       \<and> month nb = month birth_date \<and> day nb = day birth_date"
proof -
  have ty: "1 \<le> year today" "year today \<le> 9999" using t by (simp_all add: valid_date_def)
  note e = r[unfolded next_birthday_eq[OF b t]]
  from e have d: "day birth_date \<le> days_in_month (year today) (month birth_date)"
    by (auto split: if_splits)
  have va: "valid_date (birth_date\<lparr>year := year today\<rparr>)" using replace_year_valid[OF b ty d] .
  show ?thesis
  proof (cases "date_less (birth_date\<lparr>year := year today\<rparr>) today")
    case False
    then have "nb = birth_date\<lparr>year := year today\<rparr>" using e d by simp
    then show ?thesis using False toordinal_le[OF t va False] by simp
  next
    case True
    then have y: "year today < 9999"
        and d': "day birth_date \<le> days_in_month (year today + 1) (month birth_date)"
        and nb: "nb = birth_date\<lparr>year := year today + 1\<rparr>"
      using e d by (auto split: if_splits)
    have vb: "valid_date nb" unfolding nb using replace_year_valid[OF b _ _ d'] ty y by simp
    have nl: "\<not> date_less nb today" by (simp add: nb date_less_def)
    show ?thesis using nl toordinal_le[OF t vb nl] by (simp add: nb)
  qed
qed

lemma parse_19900315: "parse_date E ''1990-03-15'' = Inr \<lparr>year = 1990, month = 3, day = 15\<rparr>"
proof -
  have "strptime_ymd ''1990-03-15'' = Inr \<lparr>year = 1990, month = 3, day = 15\<rparr>" by code_simp
  moreover have "is_ascii ''1990-03-15''" by code_simp
  ultimately show ?thesis by (simp add: parse_date_def)
qed

lemma next_birthday_same_day:
  "next_birthday \<lparr>year = 1990, month = 3, day = 15\<rparr> \<lparr>year = 2024, month = 3, day = 15\<rparr>
     = Inr \<lparr>year = 2024, month = 3, day = 15\<rparr>"
  by code_simp

lemma next_birthday_day_after:
  "next_birthday \<lparr>year = 1990, month = 3, day = 15\<rparr> \<lparr>year = 2024, month = 3, day = 16\<rparr>
     = Inr \<lparr>year = 2025, month = 3, day = 15\<rparr>"
  by code_simp

lemma str_nat_0: "str_nat 0 = ''0''"
  by (simp add: str_nat.simps)

lemma birthday_loop_same_day:
  "fst (birthday_loop E \<lparr>year = 2024, month = 3, day = 15\<rparr> 0
          [\<lparr>name = ''Ann'', date = ''1990-03-15''\<rparr>] [] s)
     = Inr [(''birthday_0'', \<lparr>val = JStr (''Ann'' @ birthday_word @ birthday_today),
                               color = fst (get_color E s)\<rparr>)]"
  by (simp add: parse_19900315 next_birthday_same_day status_def str_nat_0 case_prod_beta)

text \<open>
  Claim C7, amended. For a valid birth date and a valid today, the next occurrence is the
  birth date with its year replaced by today's year, and with the year after it when that
  date precedes today, provided the birth day exists in the month of the year it is moved
  to, which it does for every date but 29 February, and the year does not pass 9999;
  otherwise \<^verbatim>\<open>replace\<close> raises ValueError. A next occurrence that is returned never
  precedes today, keeps the birth month and day, and gives a count of remaining days that
  is not negative. The text \<^verbatim>\<open>1990-03-15\<close> parses to 15 March 1990; with today
  2024-03-15 the next occurrence is today, the count is 0, the status is the literal of
  line 185, and the entry composed for the birthday carries it; with today 2024-03-16 the
  next occurrence is 2025-03-15.
\<close>

theorem next_birthday_occurrence:
  assumes "valid_date birth_date" and "valid_date today"
  shows "(day birth_date \<le> days_in_month (year today) (month birth_date)
            \<and> \<not> date_less (birth_date\<lparr>year := year today\<rparr>) today
          \<longrightarrow> next_birthday birth_date today = Inr (birth_date\<lparr>year := year today\<rparr>))
       \<and> (day birth_date \<le> days_in_month (year today) (month birth_date)
            \<and> date_less (birth_date\<lparr>year := year today\<rparr>) today
            \<and> year today < 9999
            \<and> day birth_date \<le> days_in_month (year today + 1) (month birth_date)
          \<longrightarrow> next_birthday birth_date today = Inr (birth_date\<lparr>year := year today + 1\<rparr>))
       \<and> (\<not> day birth_date \<le> days_in_month (year today) (month birth_date)
          \<longrightarrow> next_birthday birth_date today = Inl (ValueError DateRange))
       \<and> (day birth_date \<le> days_in_month (year today) (month birth_date)
            \<and> date_less (birth_date\<lparr>year := year today\<rparr>) today
            \<and> \<not> (year today < 9999
                  \<and> day birth_date \<le> days_in_month (year today + 1) (month birth_date))
          \<longrightarrow> next_birthday birth_date today = Inl (ValueError DateRange))
       \<and> (\<not> (month birth_date = 2 \<and> day birth_date = 29)
          \<longrightarrow> day birth_date \<le> days_in_month y (month birth_date))
       \<and> (\<forall>nb. next_birthday birth_date today = Inr nb \<longrightarrow>
             \<not> date_less nb today \<and> 0 \<le> toordinal nb - toordinal today
           \<and> month nb = month birth_date \<and> day nb = day birth_date)
       \<and> parse_date E ''1990-03-15'' = Inr \<lparr>year = 1990, month = 3, day = 15\<rparr>
       \<and> next_birthday \<lparr>year = 1990, month = 3, day = 15\<rparr> \<lparr>year = 2024, month = 3, day = 15\<rparr>
            = Inr \<lparr>year = 2024, month = 3, day = 15\<rparr>
       \<and> toordinal \<lparr>year = 2024, month = 3, day = 15\<rparr> - toordinal \<lparr>year = 2024, month = 3, day = 15\<rparr> = 0
       \<and> status 0 = birthday_today
       \<and> fst (birthday_loop E \<lparr>year = 2024, month = 3, day = 15\<rparr> 0
                [\<lparr>name = ''Ann'', date = ''1990-03-15''\<rparr>] [] s)
            = Inr [(''birthday_0'', \<lparr>val = JStr (''Ann'' @ birthday_word @ birthday_today),
                                      color = fst (get_color E s)\<rparr>)]
       \<and> next_birthday \<lparr>year = 1990, month = 3, day = 15\<rparr> \<lparr>year = 2024, month = 3, day = 16\<rparr>
            = Inr \<lparr>year = 2025, month = 3, day = 15\<rparr>"
proof -
  note e = next_birthday_eq[OF assms]
  have 1: "day birth_date \<le> days_in_month (year today) (month birth_date)
            \<and> \<not> date_less (birth_date\<lparr>year := year today\<rparr>) today
          \<longrightarrow> next_birthday birth_date today = Inr (birth_date\<lparr>year := year today\<rparr>)"
    unfolding e by simp
  have 2: "day birth_date \<le> days_in_month (year today) (month birth_date)
            \<and> date_less (birth_date\<lparr>year := year today\<rparr>) today
            \<and> year today < 9999
            \<and> day birth_date \<le> days_in_month (year today + 1) (month birth_date)
          \<longrightarrow> next_birthday birth_date today = Inr (birth_date\<lparr>year := year today + 1\<rparr>)"
    unfolding e by simp
  have 3: "\<not> day birth_date \<le> days_in_month (year today) (month birth_date)
          \<longrightarrow> next_birthday birth_date today = Inl (ValueError DateRange)"
    unfolding e by simp
  have 4: "day birth_date \<le> days_in_month (year today) (month birth_date)
            \<and> date_less (birth_date\<lparr>year := year today\<rparr>) today
            \<and> \<not> (year today < 9999
                  \<and> day birth_date \<le> days_in_month (year today + 1) (month birth_date))
          \<longrightarrow> next_birthday birth_date today = Inl (ValueError DateRange)"
    unfolding e by simp
  have 5: "\<not> (month birth_date = 2 \<and> day birth_date = 29)
          \<longrightarrow> day birth_date \<le> days_in_month y (month birth_date)"
    using not_leap_day[OF assms(1)] by blast
  have 6: "\<forall>nb. next_birthday birth_date today = Inr nb \<longrightarrow>
             \<not> date_less nb today \<and> 0 \<le> toordinal nb - toordinal today
           \<and> month nb = month birth_date \<and> day nb = day birth_date"
    using next_birthday_not_before[OF assms] by blast
  have 7: "toordinal \<lparr>year = 2024, month = 3, day = 15\<rparr> - toordinal \<lparr>year = 2024, month = 3, day = 15\<rparr> = 0"
    "status 0 = birthday_today"
    by (simp_all add: status_def)
  show ?thesis
    using 1 2 3 4 5 6 7 parse_19900315[of E] next_birthday_same_day next_birthday_day_after
      birthday_loop_same_day[of E s]
    by (intro conjI) assumption+
qed

theorem next_birthday_occurrence_witness:
  "valid_date \<lparr>year = 1990, month = 3, day = 15\<rparr> \<and> valid_date \<lparr>year = 2024, month = 3, day = 16\<rparr>
 \<and> next_birthday \<lparr>year = 1990, month = 3, day = 15\<rparr> \<lparr>year = 2024, month = 3, day = 16\<rparr>
      = Inr \<lparr>year = 2025, month = 3, day = 15\<rparr>
 \<and> 0 \<le> toordinal \<lparr>year = 2025, month = 3, day = 15\<rparr> - toordinal \<lparr>year = 2024, month = 3, day = 16\<rparr>
 \<and> valid_date \<lparr>year = 2000, month = 2, day = 29\<rparr> \<and> valid_date \<lparr>year = 2024, month = 2, day = 10\<rparr>
 \<and> next_birthday \<lparr>year = 2000, month = 2, day = 29\<rparr> \<lparr>year = 2024, month = 2, day = 10\<rparr>
      = Inr \<lparr>year = 2024, month = 2, day = 29\<rparr>
 \<and> valid_date \<lparr>year = 9999, month = 6, day = 1\<rparr>
 \<and> next_birthday \<lparr>year = 1990, month = 3, day = 15\<rparr> \<lparr>year = 9999, month = 6, day = 1\<rparr>
      = Inl (ValueError DateRange)"
proof -
  have v: "valid_date \<lparr>year = 1990, month = 3, day = 15\<rparr>" "valid_date \<lparr>year = 2024, month = 3, day = 16\<rparr>"
    "valid_date \<lparr>year = 2000, month = 2, day = 29\<rparr>" "valid_date \<lparr>year = 2024, month = 2, day = 10\<rparr>"
    "valid_date \<lparr>year = 9999, month = 6, day = 1\<rparr>"
    by (simp_all add: valid_date_def days_in_month_def is_leap_def)
  show ?thesis
    using next_birthday_occurrence[OF v(1) v(2), of 2025 "world []" init_state]
      next_birthday_occurrence[OF v(3) v(4), of 2024 "world []" init_state]
      next_birthday_occurrence[OF v(1) v(5), of 9999 "world []" init_state] v
    by (simp add: date_less_def days_in_month_def is_leap_def)
qed

text \<open>
  The claim as stated gives the rule for every birth date. For a birthday on 29 February
  and a today in a year that is not a leap year, line 181 raises instead of producing a
  date, and the loop of lines 179-189 raises with it.
\<close>

theorem next_birthday_leap_day_counterexample:
  "valid_date \<lparr>year = 2000, month = 2, day = 29\<rparr> \<and> valid_date \<lparr>year = 2023, month = 3, day = 15\<rparr>
 \<and> next_birthday \<lparr>year = 2000, month = 2, day = 29\<rparr> \<lparr>year = 2023, month = 3, day = 15\<rparr>
      = Inl (ValueError DateRange)"
  by code_simp

section \<open>Composition of the message\<close>

lemma get_color_fst_indep: "fst (get_color E s) = CHR ''#'' # zfill 6 (hex_nat (randint E (rand_draws s)))"
  by (simp add: get_color_def)



lemma keys_update: "fst ` set (AList.update k v d) = insert k (fst ` set d)"
  by (simp add: AList.dom_update)

lemma anniversary_loop_ok:
  "\<forall>a\<in>set es. \<not> isl (parse_date E (date a)) \<Longrightarrow>
     \<exists>m. fst (anniversary_loop E today idx es d s) = Inr m
        \<and> fst ` set m = fst ` set d \<union> (\<lambda>i. ''anniversary_'' @ str_nat i) ` {idx ..< idx + length es}"
proof (induction es arbitrary: idx d s)
  case Nil
  show ?case by simp
next
  case (Cons a es)
  from Cons.prems obtain sd where sd: "parse_date E (date a) = Inr sd"
    by (cases "parse_date E (date a)") auto
  define d' where "d' = AList.update (''anniversary_'' @ str_nat idx)
     \<lparr>val = JStr (name a @ already @ str_int (calculate_days sd today) @ '' '' @ days_suffix),
      color = fst (get_color E s)\<rparr> d"
  have step: "anniversary_loop E today idx (a # es) d s
      = anniversary_loop E today (Suc idx) es d' (snd (get_color E s))"
    by (simp add: sd d'_def case_prod_beta)
  from Cons.prems have "\<forall>a\<in>set es. \<not> isl (parse_date E (date a))" by simp
  from Cons.IH[OF this, of "Suc idx" d' "snd (get_color E s)"] obtain m where
    m: "fst (anniversary_loop E today (Suc idx) es d' (snd (get_color E s))) = Inr m"
       "fst ` set m = fst ` set d' \<union> (\<lambda>i. ''anniversary_'' @ str_nat i) ` {Suc idx ..< Suc idx + length es}"
    by blast
  have r: "{idx ..< idx + length (a # es)} = insert idx {Suc idx ..< Suc idx + length es}" by auto
  have "fst ` set m = fst ` set d \<union> (\<lambda>i. ''anniversary_'' @ str_nat i) ` {idx ..< idx + length (a # es)}"
    unfolding m(2) r by (simp add: d'_def keys_update)
  with m(1) step show ?case by simp
qed

lemma birthday_loop_ok:
  "\<forall>b\<in>set es. \<exists>bd nb. parse_date E (date b) = Inr bd \<and> next_birthday bd today = Inr nb \<Longrightarrow>
     \<exists>m. fst (birthday_loop E today idx es d s) = Inr m
        \<and> fst ` set m = fst ` set d \<union> (\<lambda>i. ''birthday_'' @ str_nat i) ` {idx ..< idx + length es}"
proof (induction es arbitrary: idx d s)
  case Nil
  show ?case by simp
next
  case (Cons b es)
  from Cons.prems obtain bd nb where bd: "parse_date E (date b) = Inr bd"
      and nb: "next_birthday bd today = Inr nb" by auto
  define d' where "d' = AList.update (''birthday_'' @ str_nat idx)
     \<lparr>val = JStr (name b @ birthday_word @ status (toordinal nb - toordinal today)),
      color = fst (get_color E s)\<rparr> d"
  have step: "birthday_loop E today idx (b # es) d s
      = birthday_loop E today (Suc idx) es d' (snd (get_color E s))"
    by (simp add: bd nb d'_def case_prod_beta)
  from Cons.prems have "\<forall>b\<in>set es. \<exists>bd nb. parse_date E (date b) = Inr bd \<and> next_birthday bd today = Inr nb"
    by simp
  from Cons.IH[OF this, of "Suc idx" d' "snd (get_color E s)"] obtain m where
    m: "fst (birthday_loop E today (Suc idx) es d' (snd (get_color E s))) = Inr m"
       "fst ` set m = fst ` set d' \<union> (\<lambda>i. ''birthday_'' @ str_nat i) ` {Suc idx ..< Suc idx + length es}"
    by blast
  have r: "{idx ..< idx + length (b # es)} = insert idx {Suc idx ..< Suc idx + length es}" by auto
  have "fst ` set m = fst ` set d \<union> (\<lambda>i. ''birthday_'' @ str_nat i) ` {idx ..< idx + length (b # es)}"
    unfolding m(2) r by (simp add: d'_def keys_update)
  with m(1) step show ?case by simp
qed

lemma map_of_dict_merge: "map_of (dict_merge a b) = map_of a ++ map_of (rev b)"
  unfolding dict_merge_def
proof (induction b arbitrary: a)
  case Nil
  show ?case by simp
next
  case (Cons x b)
  obtain k v where x: "x = (k, v)" by (cases x)
  show ?case
    unfolding x by (simp add: Cons.IH AList.update_conv' map_add_upd_left)
      (auto simp: map_add_def fun_eq_iff split: option.splits)
qed



lemma map_of_dict_merge_other:
  "k \<notin> fst ` set b \<Longrightarrow> map_of (dict_merge a b) k = map_of a k"
proof -
  assume "k \<notin> fst ` set b"
  then have "k \<notin> fst ` set (rev b)" by simp
  then have "map_of (rev b) k = None" by (meson map_of_eq_None_iff)
  then show ?thesis by (simp add: map_of_dict_merge map_add_def)
qed

text \<open>The body of \<open>generate_message_data\<close> with its intermediate states named.\<close>

lemma generate_message_data_unfold:
  assumes "anniversary_loop E (fst (fst (now E s))) 0 (entries (anniversaries cfg)) []
             (snd (base_data E cfg (fst (fst (now E s)))
                     (fst (weather_or_unknown E cfg (snd (now E s))))
                     (snd (weather_or_unknown E cfg (snd (now E s)))))) = (ra, s3)"
    and "birthday_loop E (fst (fst (now E s))) 0 (entries (birthdays cfg)) [] s3 = (rb, s4)"
  shows "fst (generate_message_data E cfg s) =
     (case ra of Inl e \<Rightarrow> Inl e
      | Inr anniversary_data \<Rightarrow>
         (case rb of Inl e \<Rightarrow> Inl e
          | Inr birthday_data \<Rightarrow>
             Inr (dict_merge (dict_merge
                (fst (base_data E cfg (fst (fst (now E s)))
                     (fst (weather_or_unknown E cfg (snd (now E s))))
                     (snd (weather_or_unknown E cfg (snd (now E s))))))
                anniversary_data) birthday_data)))"
  using assms by (simp add: generate_message_data_def Let_def case_prod_beta split: sum.splits)

lemma today_now: "fst (fst (now E s)) = fst (clock E (clock_reads s))"
  by (simp add: now_def)



lemma base_data_map:
  "\<exists>c1 c2 c3 c4 c5. fst (base_data E cfg today w s) =
      [(''date'', \<lparr>val = JStr (isoformat today @ '' '' @ week_list ! weekday today), color = c1\<rparr>),
       (''region'', \<lparr>val = JStr (region cfg), color = c2\<rparr>),
       (''weather'', \<lparr>val = fst w, color = c3\<rparr>),
       (''temp'', \<lparr>val = fst (snd w), color = c4\<rparr>),
       (''wind_dir'', \<lparr>val = snd (snd w), color = c5\<rparr>)]"
  by (simp add: base_data_def case_prod_beta Let_def)

lemma generate_message_data_ok:
  assumes a: "\<forall>a\<in>set (entries (anniversaries cfg)). \<not> isl (parse_date E (date a))"
    and b: "\<forall>b\<in>set (entries (birthdays cfg)). \<exists>bd nb. parse_date E (date b) = Inr bd
              \<and> next_birthday bd (fst (clock E (clock_reads s))) = Inr nb"
  shows "\<exists>ad bd. fst (generate_message_data E cfg s) =
        Inr (dict_merge (dict_merge
                (fst (base_data E cfg (fst (clock E (clock_reads s)))
                     (fst (weather_or_unknown E cfg (snd (now E s))))
                     (snd (weather_or_unknown E cfg (snd (now E s)))))) ad) bd)
      \<and> fst ` set ad = (\<lambda>i. ''anniversary_'' @ str_nat i) ` {0 ..< length (entries (anniversaries cfg))}
      \<and> fst ` set bd = (\<lambda>i. ''birthday_'' @ str_nat i) ` {0 ..< length (entries (birthdays cfg))}"
proof -
  let ?today = "fst (fst (now E s))"
  let ?s2 = "snd (base_data E cfg ?today (fst (weather_or_unknown E cfg (snd (now E s))))
                     (snd (weather_or_unknown E cfg (snd (now E s)))))"
  obtain ra s3 where ra: "anniversary_loop E ?today 0 (entries (anniversaries cfg)) [] ?s2 = (ra, s3)"
    by (cases "anniversary_loop E ?today 0 (entries (anniversaries cfg)) [] ?s2")
  from anniversary_loop_ok[OF a, of ?today 0 "[]" ?s2] ra obtain ad where
    ad: "ra = Inr ad"
      "fst ` set ad = (\<lambda>i. ''anniversary_'' @ str_nat i) ` {0 ..< length (entries (anniversaries cfg))}"
    by auto
  obtain rb s4 where rb: "birthday_loop E ?today 0 (entries (birthdays cfg)) [] s3 = (rb, s4)"
    by (cases "birthday_loop E ?today 0 (entries (birthdays cfg)) [] s3")
  from birthday_loop_ok[OF b[folded today_now], of 0 "[]" s3] rb obtain bd where
    bd: "rb = Inr bd"
      "fst ` set bd = (\<lambda>i. ''birthday_'' @ str_nat i) ` {0 ..< length (entries (birthdays cfg))}"
    by auto
  show ?thesis using generate_message_data_unfold[OF ra rb] ad bd by (auto simp add: today_now)
qed


lemma parse_bad: "parse_date E ''2024-13-40'' = Inl (ValueError TimeData)"
proof -
  have "strptime_ymd ''2024-13-40'' = Inl (ValueError TimeData)" by code_simp
  moreover have "is_ascii ''2024-13-40''" by code_simp
  ultimately show ?thesis by (simp add: parse_date_def)
qed

lemma parse_20200101: "parse_date E ''2020-01-01'' = Inr \<lparr>year = 2020, month = 1, day = 1\<rparr>"
proof -
  have "strptime_ymd ''2020-01-01'' = Inr \<lparr>year = 2020, month = 1, day = 1\<rparr>" by code_simp
  moreover have "is_ascii ''2020-01-01''" by code_simp
  ultimately show ?thesis by (simp add: parse_date_def)
qed

lemma config_dates_ok:
  "\<forall>a\<in>set (entries (anniversaries config_dates)). \<not> isl (parse_date (world xs) (date a))"
  "\<forall>b\<in>set (entries (birthdays config_dates)). \<exists>bd nb. parse_date (world xs) (date b) = Inr bd
       \<and> next_birthday bd (fst (clock (world xs) (clock_reads init_state))) = Inr nb"
  by (simp_all add: config_dates_def sample_config_def entries_def parse_20200101 parse_19900315
      world_def init_state_def next_birthday_same_day)











lemma weather_or_unknown_fails:
  "isl (fst (get_weather E (weather_key cfg) (region cfg) s)) \<Longrightarrow>
     fst (weather_or_unknown E cfg s) = (JStr unknown, JStr unknown, JStr unknown)"
  by (cases "get_weather E (weather_key cfg) (region cfg) s")
     (auto simp add: weather_or_unknown_def split: sum.splits)

lemma fixed_key_not_generated:
  "k \<in> {''date'', ''region'', ''weather'', ''temp'', ''wind_dir''} \<Longrightarrow>
     k \<notin> (\<lambda>i. ''anniversary_'' @ str_nat i) ` A \<and> k \<notin> (\<lambda>i. ''birthday_'' @ str_nat i) ` B"
  by auto

lemma generate_message_data_fixed:
  assumes a: "\<forall>a\<in>set (entries (anniversaries cfg)). \<not> isl (parse_date E (date a))"
    and b: "\<forall>b\<in>set (entries (birthdays cfg)). \<exists>bd nb. parse_date E (date b) = Inr bd
              \<and> next_birthday bd (fst (clock E (clock_reads s))) = Inr nb"
  shows "\<exists>m. fst (generate_message_data E cfg s) = Inr m
     \<and> (\<forall>k\<in>{''date'', ''region'', ''weather'', ''temp'', ''wind_dir''}.
          map_of m k = map_of (fst (base_data E cfg (fst (clock E (clock_reads s)))
                     (fst (weather_or_unknown E cfg (snd (now E s))))
                     (snd (weather_or_unknown E cfg (snd (now E s)))))) k)"
  using generate_message_data_ok[OF a b]
proof (elim exE conjE)
  fix ad bd
  let ?base = "fst (base_data E cfg (fst (clock E (clock_reads s)))
                     (fst (weather_or_unknown E cfg (snd (now E s))))
                     (snd (weather_or_unknown E cfg (snd (now E s)))))"
  assume m: "fst (generate_message_data E cfg s) = Inr (dict_merge (dict_merge ?base ad) bd)"
    and ad: "fst ` set ad = (\<lambda>i. ''anniversary_'' @ str_nat i) ` {0 ..< length (entries (anniversaries cfg))}"
    and bd: "fst ` set bd = (\<lambda>i. ''birthday_'' @ str_nat i) ` {0 ..< length (entries (birthdays cfg))}"
  have "\<forall>k\<in>{''date'', ''region'', ''weather'', ''temp'', ''wind_dir''}.
          map_of (dict_merge (dict_merge ?base ad) bd) k = map_of ?base k"
  proof
    fix k :: string
    assume "k \<in> {''date'', ''region'', ''weather'', ''temp'', ''wind_dir''}"
    from fixed_key_not_generated[OF this] have na: "k \<notin> fst ` set ad" and nb: "k \<notin> fst ` set bd"
      unfolding ad bd by (rule conjunct1, rule conjunct2)
    show "map_of (dict_merge (dict_merge ?base ad) bd) k = map_of ?base k"
      unfolding map_of_dict_merge_other[OF nb] map_of_dict_merge_other[OF na] by (rule refl)
  qed
  then show ?thesis by (intro exI conjI) (rule m)
qed

text \<open>
  Claim C8, amended. When \<open>get_weather\<close> raises, whatever the exception, and the
  anniversaries and birthdays can be composed (every anniversary date parses, every
  birthday has a date that parses and a next occurrence), \<open>generate_message_data\<close> returns
  a mapping that holds the five fixed entries: \<^verbatim>\<open>date\<close>, \<^verbatim>\<open>region\<close> with the configured
  region, and \<^verbatim>\<open>weather\<close>, \<^verbatim>\<open>temp\<close> and \<^verbatim>\<open>wind_dir\<close> with the placeholder of line 150.
\<close>

theorem generate_message_data_weather_fallback:
  assumes w: "isl (fst (get_weather E (weather_key cfg) (region cfg) (snd (now E s))))"
    and a: "\<forall>a\<in>set (entries (anniversaries cfg)). \<not> isl (parse_date E (date a))"
    and b: "\<forall>b\<in>set (entries (birthdays cfg)). \<exists>bd nb. parse_date E (date b) = Inr bd
              \<and> next_birthday bd (fst (clock E (clock_reads s))) = Inr nb"
  shows "\<exists>m. fst (generate_message_data E cfg s) = Inr m
     \<and> (\<exists>c. map_of m ''date'' = Some \<lparr>val = JStr (isoformat (fst (clock E (clock_reads s))) @ '' ''
                   @ week_list ! weekday (fst (clock E (clock_reads s)))), color = c\<rparr>)
     \<and> (\<exists>c. map_of m ''region'' = Some \<lparr>val = JStr (region cfg), color = c\<rparr>)
     \<and> (\<exists>c. map_of m ''weather'' = Some \<lparr>val = JStr unknown, color = c\<rparr>)
     \<and> (\<exists>c. map_of m ''temp'' = Some \<lparr>val = JStr unknown, color = c\<rparr>)
     \<and> (\<exists>c. map_of m ''wind_dir'' = Some \<lparr>val = JStr unknown, color = c\<rparr>)"
proof -
  let ?today = "fst (clock E (clock_reads s))"
  let ?w = "fst (weather_or_unknown E cfg (snd (now E s)))"
  let ?s1 = "snd (weather_or_unknown E cfg (snd (now E s)))"
  let ?u = "(JStr unknown, JStr unknown, JStr unknown)"
  have wu: "?w = ?u" using w by (rule weather_or_unknown_fails)
  from generate_message_data_fixed[OF a b] show ?thesis
  proof (elim exE conjE)
    fix m
    assume m: "fst (generate_message_data E cfg s) = Inr m"
      and k: "\<forall>k\<in>{''date'', ''region'', ''weather'', ''temp'', ''wind_dir''}.
          map_of m k = map_of (fst (base_data E cfg ?today ?w ?s1)) k"
    from base_data_map[of E cfg ?today ?u ?s1] show ?thesis
    proof (elim exE)
      fix c1 c2 c3 c4 c5
      assume base: "fst (base_data E cfg ?today ?u ?s1) =
        [(''date'', \<lparr>val = JStr (isoformat ?today @ '' '' @ week_list ! weekday ?today), color = c1\<rparr>),
         (''region'', \<lparr>val = JStr (region cfg), color = c2\<rparr>),
         (''weather'', \<lparr>val = fst ?u, color = c3\<rparr>),
         (''temp'', \<lparr>val = fst (snd ?u), color = c4\<rparr>),
         (''wind_dir'', \<lparr>val = snd (snd ?u), color = c5\<rparr>)]"
      note k' = k[unfolded wu base]
      have 1: "map_of m ''date'' = Some \<lparr>val = JStr (isoformat ?today @ '' '' @ week_list ! weekday ?today), color = c1\<rparr>"
        using k' by simp
      have 2: "map_of m ''region'' = Some \<lparr>val = JStr (region cfg), color = c2\<rparr>"
        using k' by simp
      have 3: "map_of m ''weather'' = Some \<lparr>val = JStr unknown, color = c3\<rparr>"
        using k' by simp
      have 4: "map_of m ''temp'' = Some \<lparr>val = JStr unknown, color = c4\<rparr>"
        using k' by simp
      have 5: "map_of m ''wind_dir'' = Some \<lparr>val = JStr unknown, color = c5\<rparr>"
        using k' by simp
      show ?thesis
        by (rule exI[of _ m], intro conjI exI) (rule m 1 2 3 4 5)+
    qed
  qed
qed

theorem generate_message_data_weather_fallback_witness:
  "isl (fst (get_weather (world []) (weather_key config_dates) (region config_dates)
              (snd (now (world []) init_state))))
 \<and> (\<exists>m. fst (generate_message_data (world []) config_dates init_state) = Inr m
        \<and> (\<exists>c. map_of m ''date'' = Some \<lparr>val = JStr (isoformat (fst (clock (world []) (clock_reads init_state))) @ '' ''
                   @ week_list ! weekday (fst (clock (world []) (clock_reads init_state)))), color = c\<rparr>)
        \<and> (\<exists>c. map_of m ''region'' = Some \<lparr>val = JStr (region config_dates), color = c\<rparr>)
        \<and> (\<exists>c. map_of m ''weather'' = Some \<lparr>val = JStr unknown, color = c\<rparr>)
        \<and> (\<exists>c. map_of m ''temp'' = Some \<lparr>val = JStr unknown, color = c\<rparr>)
        \<and> (\<exists>c. map_of m ''wind_dir'' = Some \<lparr>val = JStr unknown, color = c\<rparr>))"
proof -
  have w: "isl (fst (get_weather (world []) (weather_key config_dates) (region config_dates)
              (snd (now (world []) init_state))))"
    by (simp add: run_defs now_def config_dates_def sample_config_def)
  show ?thesis
    using w generate_message_data_weather_fallback[OF w config_dates_ok[of "[]"]] by (rule conjI)
qed

text \<open>
  The claim as stated, that the method does not abort when the weather lookup raises,
  fails when a configured date is malformed: the lookup raises and is caught, and the
  method then raises the ValueError of \<^verbatim>\<open>strptime\<close>.
\<close>

theorem generate_message_data_weather_abort_counterexample:
  "fst (get_weather (world []) ''k'' ''Beijing'' (snd (now (world []) init_state)))
     = Inl (ValueError RegionLookup)
 \<and> fst (generate_message_data (world [])
          (sample_config\<lparr>birthdays := Some [\<lparr>name = ''Bob'', date = ''2024-13-40''\<rparr>]\<rparr>) init_state)
     = Inl (ValueError TimeData)"
  by (simp add: generate_message_data_def sample_config_def entries_def run_defs now_def
      parse_bad case_prod_beta)



end
